theory Spec2Isabelle
  imports Complex_Main
begin

section \<open>Data model\<close>

text \<open>
  The utilities of \<^verbatim>\<open>qonnx/util/basic.py\<close> work on NumPy arrays whose storage type is a
  floating-point container, on QONNX datatypes, and on a dictionary from tensor names to
  arrays. Numbers are modelled as exact reals. The rounding of floating-point arithmetic
  is not part of the model, with one exception: the generator's conversion of the
  integers it draws to the float container. Every exception the Python code can raise
  is a value of \<open>error\<close>.
\<close>

datatype error =
    AssertionError
  | ValueError
  | KeyError
  | IndexError
  | ZeroDivisionError
  | OverflowError
  | AttributeError
  | TypeError
  | RoundingTooLarge
  | StillNotRepresentable

datatype np_dtype =
    Float16 | Float32 | Float64
  | Int8 | Int16 | Int32 | Int64
  | UInt8 | UInt16 | UInt32 | UInt64
  | Bool

text \<open>
  An \<open>ndarray\<close> is its storage type, its shape and its elements in row-major (C) order,
  which is how NumPy lays out the arrays these functions create.
\<close>

record ndarray =
  dtype :: np_dtype
  shape :: "nat list"
  data :: "real list"

definition wf_ndarray :: "ndarray \<Rightarrow> bool" where
  "wf_ndarray a = (length (data a) = prod_list (shape a))"

text \<open>
  Modelled from the spec: the datatype catalogue (\<^verbatim>\<open>qonnx.core.datatype\<close>) is not part
  of the sources. A datatype is the capability interface the spec lists: a name that
  identifies it, \<open>min()\<close>, \<open>max()\<close>, \<open>is_integer()\<close>, \<open>signed()\<close>, \<open>bitwidth()\<close>,
  \<open>scale_factor()\<close>, the membership test \<open>allowed(x)\<close> and the native storage kind.
\<close>

record DataType =
  name :: string
  dt_min :: real
  dt_max :: real
  is_integer :: bool
  dt_signed :: bool
  bitwidth :: nat
  scale_factor :: real
  allowed :: "real \<Rightarrow> bool"
  to_numpy_dt :: np_dtype

section \<open>Range analysis\<close>

subsection \<open>\<^verbatim>\<open>calculate_matvec_accumulator_range\<close>\<close>

text \<open>\<open>np.where(matrix > 0, a, b)\<close>, element by element.\<close>

definition np_where_pos :: "real list \<Rightarrow> real \<Rightarrow> real \<Rightarrow> real list" where
  "np_where_pos xs a b = map (\<lambda>x. if x > 0 then a else b) xs"

text \<open>The element-wise product of two arrays of one shape.\<close>

definition np_mul :: "real list \<Rightarrow> real list \<Rightarrow> real list" where
  "np_mul xs ys = map2 (*) xs ys"

text \<open>
  \<open>a.sum(axis=0)\<close>: the outermost axis is summed away. Entry \<open>k\<close> of the result adds the
  entries \<open>i * inner + k\<close> of the flat data, where \<open>inner\<close> is the number of elements of
  one slice along axis 0. On a 0-dimensional array NumPy accepts \<open>axis=0\<close> and returns
  the one element.
\<close>

definition sum_axis0 :: "nat list \<Rightarrow> real list \<Rightarrow> error + real list" where
  "sum_axis0 shp xs =
     (case shp of
        [] \<Rightarrow> Inr xs
      | d0 # rest \<Rightarrow>
          Inr (map (\<lambda>k. sum_list (map (\<lambda>i. xs ! (i * prod_list rest + k)) [0..<d0]))
                   [0..<prod_list rest]))"

text \<open>\<open>a.max()\<close> and \<open>a.min()\<close> over all elements; NumPy raises on an array of size zero.\<close>

definition np_max :: "real list \<Rightarrow> error + real" where
  "np_max xs = (case xs of [] \<Rightarrow> Inl ValueError | y # ys \<Rightarrow> Inr (fold max ys y))"

definition np_min :: "real list \<Rightarrow> error + real" where
  "np_min xs = (case xs of [] \<Rightarrow> Inl ValueError | y # ys \<Rightarrow> Inr (fold min ys y))"

definition calculate_matvec_accumulator_range :: "ndarray \<Rightarrow> DataType \<Rightarrow> error + real \<times> real" where
  "calculate_matvec_accumulator_range matrix vec_dt =
     (let max_vectors = np_where_pos (data matrix) (dt_max vec_dt) (dt_min vec_dt);
          min_vectors = np_where_pos (data matrix) (dt_min vec_dt) (dt_max vec_dt)
      in case sum_axis0 (shape matrix) (np_mul (data matrix) max_vectors) of
           Inl e \<Rightarrow> Inl e
         | Inr max_sums \<Rightarrow>
             (case np_max max_sums of
                Inl e \<Rightarrow> Inl e
              | Inr max_value \<Rightarrow>
                  (case sum_axis0 (shape matrix) (np_mul (data matrix) min_vectors) of
                     Inl e \<Rightarrow> Inl e
                   | Inr min_sums \<Rightarrow>
                       (case np_min min_sums of
                          Inl e \<Rightarrow> Inl e
                        | Inr min_value \<Rightarrow> Inr (min_value, max_value)))))"

text \<open>
  The terms the claim is stated in: entry \<open>(i, j)\<close> of a matrix with \<open>mh\<close> columns, and
  component \<open>j\<close> of the product \<open>x \<cdot> A\<close> of a row vector with a matrix of \<open>mw\<close> rows.
\<close>

definition entry :: "ndarray \<Rightarrow> nat \<Rightarrow> nat \<Rightarrow> real" where
  "entry A i j = data A ! (i * (shape A ! 1) + j)"

definition vecmat :: "real list \<Rightarrow> ndarray \<Rightarrow> nat \<Rightarrow> real" where
  "vecmat x A j = (\<Sum>i < shape A ! 0. x ! i * entry A i j)"

definition in_box :: "DataType \<Rightarrow> nat \<Rightarrow> real list \<Rightarrow> bool" where
  "in_box dt n x = (length x = n \<and> list_all (\<lambda>v. dt_min dt \<le> v \<and> v \<le> dt_max dt) x)"

subsection \<open>\<^verbatim>\<open>calculate_signed_dot_prod_range\<close>\<close>

text \<open>
  One pass of the inner loop body: \<open>acc\<close> is \<open>(min_prod, max_prod)\<close> and \<open>p\<close> the product
  \<open>a_val * b_val * len\<close>.
\<close>

definition prod_step :: "real \<times> real \<Rightarrow> real \<Rightarrow> real \<times> real" where
  "prod_step acc p =
     (let min_prod = (if p < fst acc then p else fst acc);
          max_prod = (if p > snd acc then p else snd acc)
      in (min_prod, max_prod))"

text \<open>The products in the order the two nested loops visit them.\<close>

definition corner_prods :: "DataType \<Rightarrow> DataType \<Rightarrow> int \<Rightarrow> real list" where
  "corner_prods dt_a dt_b len =
     concat (map (\<lambda>a_val. map (\<lambda>b_val. a_val * b_val * of_int len) [dt_min dt_b, dt_max dt_b])
                 [dt_min dt_a, dt_max dt_a])"

definition calculate_signed_dot_prod_range :: "DataType \<Rightarrow> DataType \<Rightarrow> int \<Rightarrow> error + real \<times> real" where
  "calculate_signed_dot_prod_range dt_a dt_b len =
     (if \<not> (dt_signed dt_a \<and> dt_signed dt_b) then Inl AssertionError
      else Inr (foldl prod_step (2 ^ 30, - (2 ^ 30)) (corner_prods dt_a dt_b len)))"

section \<open>Layout reshaping\<close>

subsection \<open>Coercion to a float container\<close>

text \<open>
  What a caller may pass where an array is expected: an \<open>ndarray\<close>, or a Python number
  or (nested) list of numbers.
\<close>

datatype pyseq = Num real | Seq "pyseq list"

datatype array_like = Ndarray ndarray | Nested pyseq

text \<open>
  The shape NumPy infers for a nested list: every item of a list must have the same
  shape, otherwise \<open>np.asarray\<close> with a numeric \<open>dtype\<close> raises \<open>ValueError\<close>.
\<close>

fun seq_shape :: "pyseq \<Rightarrow> nat list option" where
  "seq_shape (Num x) = Some []"
| "seq_shape (Seq []) = Some [0]"
| "seq_shape (Seq (p # ps)) =
     (case seq_shape p of
        None \<Rightarrow> None
      | Some s \<Rightarrow> if list_all (\<lambda>q. seq_shape q = Some s) ps then Some (Suc (length ps) # s) else None)"

fun seq_flat :: "pyseq \<Rightarrow> real list" where
  "seq_flat (Num x) = [x]"
| "seq_flat (Seq ps) = concat (map seq_flat ps)"

text \<open>\<open>np.asarray(x, dtype=np.float32)\<close>.\<close>

definition asarray_float32 :: "array_like \<Rightarrow> error + ndarray" where
  "asarray_float32 x =
     (case x of
        Ndarray a \<Rightarrow> Inr (a\<lparr>dtype := Float32\<rparr>)
      | Nested p \<Rightarrow>
          (case seq_shape p of
             None \<Rightarrow> Inl ValueError
           | Some s \<Rightarrow> Inr \<lparr>dtype = Float32, shape = s, data = seq_flat p\<rparr>))"

text \<open>
  The first statement of both reshaping utilities:
  \<^verbatim>\<open>if type(x) != np.ndarray or x.dtype not in [np.float32, np.float16]: x = np.asarray(x, dtype=np.float32)\<close>
\<close>

definition to_float_container :: "array_like \<Rightarrow> error + ndarray" where
  "to_float_container x =
     (case x of
        Ndarray a \<Rightarrow> if dtype a \<notin> {Float32, Float16} then asarray_float32 x else Inr a
      | Nested p \<Rightarrow> asarray_float32 x)"

subsection \<open>\<^verbatim>\<open>interleave_matrix_outer_dim_from_partitions\<close>\<close>

text \<open>
  \<open>a.reshape(dims)\<close> in C order: the flat data stay as they are. At most one entry may be
  \<open>-1\<close>; it is inferred from the size, which the known entries must divide.
\<close>

definition np_reshape :: "ndarray \<Rightarrow> int list \<Rightarrow> error + ndarray" where
  "np_reshape a dims =
     (let unknown = filter (\<lambda>d. d = - 1) dims;
          known = prod_list (filter (\<lambda>d. d \<noteq> - 1) dims);
          sz = int (length (data a))
      in if \<exists>d \<in> set dims. d < - 1 then Inl ValueError
         else if length unknown > 1 then Inl ValueError
         else if unknown = [] then
           (if known = sz then Inr (a\<lparr>shape := map nat dims\<rparr>) else Inl ValueError)
         else if known = 0 \<or> sz mod known \<noteq> 0 then Inl ValueError
         else Inr (a\<lparr>shape := map (\<lambda>d. if d = - 1 then nat (sz div known) else nat d) dims\<rparr>))"

text \<open>
  \<open>a.transpose((1, 0, 2))\<close> of a 3-dimensional array, laid out again in C order (as the
  \<open>reshape\<close> that follows does): entry \<open>(p, q, c)\<close> of the result is entry \<open>(q, p, c)\<close>
  of \<open>a\<close>.
\<close>

definition transpose_102 :: "ndarray \<Rightarrow> error + ndarray" where
  "transpose_102 a =
     (case shape a of
        [d0, d1, d2] \<Rightarrow>
          Inr (a\<lparr>shape := [d1, d0, d2],
                 data := concat (map (\<lambda>p. concat (map (\<lambda>q. map (\<lambda>c. data a ! ((q * d1 + p) * d2 + c))
                                                              [0..<d2]) [0..<d0])) [0..<d1])\<rparr>)
      | _ \<Rightarrow> Inl ValueError)"

definition interleave_matrix_outer_dim_from_partitions :: "array_like \<Rightarrow> int \<Rightarrow> error + ndarray" where
  "interleave_matrix_outer_dim_from_partitions matrix0 n_partitions =
     (case to_float_container matrix0 of
        Inl e \<Rightarrow> Inl e
      | Inr matrix \<Rightarrow>
          (let shp = shape matrix; ndim = length shp
           in if shp = [] then Inl IndexError
              else if n_partitions = 0 then Inl ZeroDivisionError
              else if int (shp ! 0) mod n_partitions \<noteq> 0 then Inl AssertionError
              else if ndim \<noteq> 2 then Inl AssertionError
              else (case np_reshape matrix [- 1, n_partitions, int (shp ! 1)] of
                      Inl e \<Rightarrow> Inl e
                    | Inr r1 \<Rightarrow>
                        (case transpose_102 r1 of
                           Inl e \<Rightarrow> Inl e
                         | Inr r2 \<Rightarrow> np_reshape r2 [n_partitions, - 1, int (shp ! 1)]))))"

text \<open>Row \<open>q\<close> of partition \<open>p\<close> of a 3-dimensional result, and row \<open>i\<close> of a matrix.\<close>

definition partition_row :: "ndarray \<Rightarrow> nat \<Rightarrow> nat \<Rightarrow> real list" where
  "partition_row r p q =
     take (shape r ! 2) (drop ((p * (shape r ! 1) + q) * (shape r ! 2)) (data r))"

definition matrix_row :: "ndarray \<Rightarrow> nat \<Rightarrow> real list" where
  "matrix_row m i = take (shape m ! 1) (drop (i * (shape m ! 1)) (data m))"

subsection \<open>\<^verbatim>\<open>roundup_to_integer_multiple\<close> and \<^verbatim>\<open>pad_tensor_to_multiple_of\<close>\<close>

text \<open>
  Sizes and factors are Python integers, so the two assertions \<open>int(x) == x\<close> and
  \<open>int(factor) == factor\<close> hold; Python's \<open>%\<close> on integers is \<open>mod\<close>.
\<close>

definition roundup_to_integer_multiple :: "int \<Rightarrow> int \<Rightarrow> error + int" where
  "roundup_to_integer_multiple x factor =
     (if factor = - 1 then Inr x
      else if \<not> (factor > 0 \<and> x > 0) then Inl AssertionError
      else if x < factor then Inr factor
      else if x mod factor = 0 then Inr x
      else Inr (x + (factor - (x mod factor))))"

text \<open>\<open>list(map(f, xs))\<close> where \<open>f\<close> may raise: the first failure ends the evaluation.\<close>

fun map_result :: "('a \<Rightarrow> error + 'b) \<Rightarrow> 'a list \<Rightarrow> error + 'b list" where
  "map_result f [] = Inr []"
| "map_result f (x # xs) =
     (case f x of
        Inl e \<Rightarrow> Inl e
      | Inr y \<Rightarrow> (case map_result f xs of Inl e \<Rightarrow> Inl e | Inr ys \<Rightarrow> Inr (y # ys)))"

text \<open>\<open>np.asarray(xs, dtype=np.int32)\<close> of Python integers raises when one does not fit.\<close>

definition asarray_int32 :: "int list \<Rightarrow> error + int list" where
  "asarray_int32 xs =
     (if \<forall>x \<in> set xs. - (2 ^ 31) \<le> x \<and> x < 2 ^ 31 then Inr xs else Inl OverflowError)"

text \<open>
  \<open>np.pad(a, pad_width, mode="constant", constant_values=val)\<close> on the flat data: along
  the outermost axis, \<open>before\<close> blocks of \<open>val\<close>, then each slice padded along the inner
  axes, then \<open>after\<close> blocks of \<open>val\<close>. An empty \<open>pad_width\<close>, which a 0-dimensional
  array gives, is an array of floats to NumPy, and \<open>np.pad\<close> raises \<open>TypeError\<close> on it.
\<close>

definition padded_shape :: "nat list \<Rightarrow> (nat \<times> nat) list \<Rightarrow> nat list" where
  "padded_shape shp pw = map2 (\<lambda>d (b, a). b + d + a) shp pw"

fun pad_data :: "nat list \<Rightarrow> (nat \<times> nat) list \<Rightarrow> real \<Rightarrow> real list \<Rightarrow> real list" where
  "pad_data (d # ds) ((b, a) # pw) val xs =
     (let inner = prod_list ds;
          inner' = prod_list (padded_shape ds pw)
      in replicate (b * inner') val
         @ concat (map (\<lambda>i. pad_data ds pw val (take inner (drop (i * inner) xs))) [0..<d])
         @ replicate (a * inner') val)"
| "pad_data ds pw val xs = xs"

definition np_pad :: "ndarray \<Rightarrow> (int \<times> int) list \<Rightarrow> real \<Rightarrow> error + ndarray" where
  "np_pad a pad_width val =
     (if pad_width = [] then Inl TypeError
      else if \<exists>(b, c) \<in> set pad_width. b < 0 \<or> c < 0 then Inl ValueError
      else let pw = map (\<lambda>(b, c). (nat b, nat c)) pad_width
           in Inr (a\<lparr>shape := padded_shape (shape a) pw,
                     data := pad_data (shape a) pw val (data a)\<rparr>))"

definition pad_tensor_to_multiple_of ::
    "array_like \<Rightarrow> int list \<Rightarrow> real \<Rightarrow> bool \<Rightarrow> error + ndarray" where
  "pad_tensor_to_multiple_of ndarray0 pad_to_dims val distr_pad =
     (case to_float_container ndarray0 of
        Inl e \<Rightarrow> Inl e
      | Inr ndarray \<Rightarrow>
          if length (shape ndarray) \<noteq> length pad_to_dims then Inl AssertionError
          else
            (case map_result (\<lambda>x. roundup_to_integer_multiple (fst x) (snd x))
                    (zip (map int (shape ndarray)) pad_to_dims) of
               Inl e \<Rightarrow> Inl e
             | Inr desired0 \<Rightarrow>
                 (case asarray_int32 desired0 of
                    Inl e \<Rightarrow> Inl e
                  | Inr desired \<Rightarrow>
                      (case asarray_int32 (map int (shape ndarray)) of
                         Inl e \<Rightarrow> Inl e
                       | Inr current \<Rightarrow>
                           (let pad_amt = map2 (-) desired current;
                                pad_width =
                                  (if distr_pad then
                                     (let pad_before = map (\<lambda>x. x div 2) pad_amt;
                                          pad_after = map2 (-) pad_amt pad_before
                                      in zip pad_before pad_after)
                                   else map (\<lambda>x. (0, x)) pad_amt)
                            in case np_pad ndarray pad_width val of
                                 Inl e \<Rightarrow> Inl e
                               | Inr ret \<Rightarrow>
                                   if map int (shape ret) \<noteq> desired then Inl AssertionError
                                   else Inr ret)))))"

section \<open>Sanitizing quantized values\<close>

text \<open>
  \<open>os.environ\<close> maps variable names to strings. A string is represented by what
  \<open>float()\<close> makes of it: a number, or a \<open>ValueError\<close>.
\<close>

datatype env_text = FloatText real | OtherText

type_synonym environ = "string \<rightharpoonup> env_text"

definition get_execution_error_thresh :: "environ \<Rightarrow> error + real" where
  "get_execution_error_thresh env =
     (case env ''ERROR_THRESH'' of
        None \<Rightarrow> Inr (1 / 100)
      | Some (FloatText r) \<Rightarrow> Inr r
      | Some OtherText \<Rightarrow> Inl ValueError)"

text \<open>\<open>np.round\<close> rounds to the nearest integer, and a tie to the even neighbour.\<close>

definition np_round :: "real \<Rightarrow> real" where
  "np_round x =
     (let f = \<lfloor>x\<rfloor>; d = x - of_int f
      in if d < 1 / 2 then of_int f
         else if d > 1 / 2 then of_int (f + 1)
         else if even f then of_int f else of_int (f + 1))"

text \<open>\<open>dtype.allowed(values)\<close>, reduced with \<open>.all()\<close>.\<close>

definition all_allowed :: "DataType \<Rightarrow> ndarray \<Rightarrow> bool" where
  "all_allowed dt a = list_all (allowed dt) (data a)"

text \<open>Python's built-in \<open>max\<close> over the flattened array; it raises on an empty one.\<close>

definition py_max :: "real list \<Rightarrow> error + real" where
  "py_max xs = (case xs of [] \<Rightarrow> Inl ValueError | y # ys \<Rightarrow> Inr (fold max ys y))"

definition abs_diff :: "ndarray \<Rightarrow> ndarray \<Rightarrow> real list" where
  "abs_diff a b = map2 (\<lambda>x y. \<bar>x - y\<bar>) (data a) (data b)"

text \<open>
  The execution context is a dictionary the function updates in place, so what it has
  written stays written when a later tensor raises. The state of a run is the dictionary
  and the warnings issued so far, each a tensor name with the name of its datatype; the
  result of a step is the new state and the exception raised, if any.
\<close>

type_synonym exec_context = "string \<rightharpoonup> ndarray"

type_synonym sanitize_state = "exec_context \<times> (string \<times> string) list"

text \<open>The body of the loop, for one tensor name.\<close>

definition sanitize_tensor ::
    "(string \<Rightarrow> DataType) \<Rightarrow> environ \<Rightarrow> bool \<Rightarrow> string \<Rightarrow> sanitize_state
       \<Rightarrow> sanitize_state \<times> error option" where
  "sanitize_tensor model env check_values tensor_name st =
     (let execution_context = fst st; warned = snd st; dt = model tensor_name
      in if \<not> is_integer dt then (st, None)
         else
           (case execution_context tensor_name of
              None \<Rightarrow> (st, Some KeyError)
            | Some current_values \<Rightarrow>
                (let is_allowed = all_allowed dt current_values;
                     updated_values =
                       (if \<not> is_allowed then current_values\<lparr>data := map np_round (data current_values)\<rparr>
                        else current_values);
                     warned' = (if \<not> is_allowed then warned @ [(tensor_name, name dt)] else warned)
                 in case py_max (abs_diff current_values updated_values) of
                      Inl e \<Rightarrow> ((execution_context, warned'), Some e)
                    | Inr max_error \<Rightarrow>
                        (case get_execution_error_thresh env of
                           Inl e \<Rightarrow> ((execution_context, warned'), Some e)
                         | Inr thresh \<Rightarrow>
                             if max_error \<le> thresh then
                               (if check_values \<and> \<not> all_allowed dt updated_values
                                then ((execution_context, warned'), Some StillNotRepresentable)
                                else ((execution_context(tensor_name \<mapsto> updated_values), warned'), None))
                             else ((execution_context, warned'), Some RoundingTooLarge)))))"

fun sanitize_loop ::
    "(string \<Rightarrow> DataType) \<Rightarrow> environ \<Rightarrow> bool \<Rightarrow> string list \<Rightarrow> sanitize_state
       \<Rightarrow> sanitize_state \<times> error option" where
  "sanitize_loop model env check_values [] st = (st, None)"
| "sanitize_loop model env check_values (tensor_name # rest) st =
     (case sanitize_tensor model env check_values tensor_name st of
        (st', Some e) \<Rightarrow> (st', Some e)
      | (st', None) \<Rightarrow> sanitize_loop model env check_values rest st')"

definition sanitize_quant_values ::
    "(string \<Rightarrow> DataType) \<Rightarrow> environ \<Rightarrow> string list \<Rightarrow> exec_context \<Rightarrow> bool
       \<Rightarrow> sanitize_state \<times> error option" where
  "sanitize_quant_values model env node_tensors execution_context check_values =
     sanitize_loop model env check_values node_tensors (execution_context, [])"

section \<open>Generating tensors of a datatype\<close>




definition digit_char :: "nat \<Rightarrow> char" where
  "digit_char d = ''0123456789'' ! d"

fun str_nat :: "nat \<Rightarrow> string" where
  "str_nat n = (if n < 10 then [digit_char n] else str_nat (n div 10) @ [digit_char (n mod 10)])"

declare str_nat.simps [simp del]


text \<open>The number of binary digits of a natural number.\<close>

fun nbits :: "nat \<Rightarrow> nat" where
  "nbits n = (if n = 0 then 0 else Suc (nbits (n div 2)))"

declare nbits.simps [simp del]

text \<open>
  The conversion of an integer to a float with \<open>p\<close> significant binary digits (24 for
  32-bit, 11 for 16-bit floats): an integer of at most \<open>p\<close> digits is kept, a longer
  one is rounded to the nearest multiple of \<open>2 ^ (n - p)\<close>, a tie to the even one. The
  integers of NumPy's integer types are within the exponent range of 32-bit floats.
\<close>

definition float_of_int :: "nat \<Rightarrow> int \<Rightarrow> real" where
  "float_of_int p v =
     (let a = nat \<bar>v\<bar>; n = nbits a
      in if n \<le> p then of_int v
         else of_int (sgn v) * (np_round (of_int (int a) / 2 ^ (n - p)) * 2 ^ (n - p)))"




section \<open>Concrete inputs\<close>

text \<open>A real number that is an integer: its floor and its ceiling agree.\<close>

definition is_whole :: "real \<Rightarrow> bool" where
  "is_whole x = (\<lfloor>x\<rfloor> = \<lceil>x\<rceil>)"

text \<open>
  Modelled from the spec: the catalogue's signed integer of \<open>n\<close> bits, with the range of
  two's complement and the integers of that range as its allowed values.
\<close>

definition dt_INT :: "nat \<Rightarrow> DataType" where
  "dt_INT n =
     \<lparr>name = ''INT'' @ str_nat n,
      dt_min = - (2 ^ (n - 1)), dt_max = 2 ^ (n - 1) - 1,
      is_integer = True, dt_signed = True, bitwidth = n, scale_factor = 1,
      allowed = (\<lambda>x. - (2 ^ (n - 1)) \<le> x \<and> x \<le> 2 ^ (n - 1) - 1 \<and> is_whole x),
      to_numpy_dt = (if n \<le> 8 then Int8 else if n \<le> 16 then Int16 else if n \<le> 32 then Int32 else Int64)\<rparr>"



text \<open>
  Modelled from the spec: the catalogue's 32-bit floating point, which is not an integer
  type and allows every value, with the largest finite 32-bit float as its bound.
\<close>

definition dt_FLOAT32 :: DataType where
  "dt_FLOAT32 =
     \<lparr>name = ''FLOAT32'',
      dt_min = - 340282346638528859811704183484516925440,
      dt_max = 340282346638528859811704183484516925440,
      is_integer = False, dt_signed = True, bitwidth = 32, scale_factor = 1,
      allowed = (\<lambda>x. True), to_numpy_dt = Float32\<rparr>"


text \<open>Arrays, nested lists and an assignment of datatypes to tensor names.\<close>

definition example_matrix :: ndarray where
  "example_matrix = \<lparr>dtype = Float32, shape = [2, 2], data = [1, - 2, 3, 4]\<rparr>"

definition example_rows :: ndarray where
  "example_rows = \<lparr>dtype = Float32, shape = [4, 2], data = [1, 2, 3, 4, 5, 6, 7, 8]\<rparr>"

definition example_pad_input :: ndarray where
  "example_pad_input = \<lparr>dtype = Float32, shape = [5, 3], data = [1, 2, 3, 4, 5, 6, 7, 8, 9, 10, 11, 12, 13, 14, 15]\<rparr>"

definition empty_array :: ndarray where
  "empty_array = \<lparr>dtype = Float32, shape = [0], data = []\<rparr>"

definition example_int_rows :: ndarray where
  "example_int_rows = \<lparr>dtype = Int32, shape = [4, 2], data = [1, 2, 3, 4, 5, 6, 7, 8]\<rparr>"

definition example_nested :: pyseq where
  "example_nested = Seq [Seq [Num 1, Num 2, Num 3], Seq [Num 4, Num 5, Num 6]]"

definition vector :: "real list \<Rightarrow> ndarray" where
  "vector xs = \<lparr>dtype = Float32, shape = [length xs], data = xs\<rparr>"

definition example_model :: "string \<Rightarrow> DataType" where
  "example_model t = (if t = ''w'' then dt_FLOAT32 else dt_INT 2)"



section \<open>Terms of the specification\<close>

text \<open>
  The weighted sum of column \<open>j\<close> when a positive entry is paired with \<open>a\<close> and any other
  entry with \<open>b\<close>, and the vector that makes the product reach it.
\<close>

definition col_sum :: "ndarray \<Rightarrow> real \<Rightarrow> real \<Rightarrow> nat \<Rightarrow> real" where
  "col_sum A a b j = (\<Sum>i < shape A ! 0. entry A i j * (if entry A i j > 0 then a else b))"

definition extremal :: "ndarray \<Rightarrow> real \<Rightarrow> real \<Rightarrow> nat \<Rightarrow> real list" where
  "extremal A a b j = map (\<lambda>i. if entry A i j > 0 then a else b) [0..<shape A ! 0]"

text \<open>The four corner products of two datatypes' ranges.\<close>

definition corners :: "DataType \<Rightarrow> DataType \<Rightarrow> real set" where
  "corners dt_a dt_b = (\<lambda>(a, b). a * b) ` ({dt_min dt_a, dt_max dt_a} \<times> {dt_min dt_b, dt_max dt_b})"

text \<open>An input that is already a NumPy array with 32- or 16-bit float storage.\<close>

definition is_float_ndarray :: "array_like \<Rightarrow> bool" where
  "is_float_ndarray x = (case x of Ndarray a \<Rightarrow> dtype a \<in> {Float32, Float16} | Nested p \<Rightarrow> False)"

text \<open>
  The array rounded element by element, and the largest distance of an element from
  its rounded value.
\<close>

definition rounded :: "ndarray \<Rightarrow> ndarray" where
  "rounded a = a\<lparr>data := map np_round (data a)\<rparr>"

definition max_abs_error :: "ndarray \<Rightarrow> real" where
  "max_abs_error a = Max ((\<lambda>x. \<bar>x - np_round x\<bar>) ` set (data a))"

text \<open>The environment without \<open>ERROR_THRESH\<close>, and with it set to a number.\<close>

definition env_unset :: environ where
  "env_unset = Map.empty"

definition env_thresh :: "real \<Rightarrow> environ" where
  "env_thresh r = [''ERROR_THRESH'' \<mapsto> FloatText r]"

text \<open>
  A tensor name that a run leaves alone: its datatype is not an integer type, or its
  stored values are all allowed.
\<close>

definition untouched :: "(string \<Rightarrow> DataType) \<Rightarrow> exec_context \<Rightarrow> string \<Rightarrow> bool" where
  "untouched model ctx t =
     (\<not> is_integer (model t) \<or> (\<exists>a. ctx t = Some a \<and> all_allowed (model t) a))"

text \<open>
  A tensor name on which a further pass changes nothing: its datatype is not an integer
  type, or its stored array is not empty, the tolerance is a number that is not
  negative, and the values are all allowed or, without the strict check, all rounded.
\<close>

definition settled :: "(string \<Rightarrow> DataType) \<Rightarrow> environ \<Rightarrow> bool \<Rightarrow> exec_context \<Rightarrow> string \<Rightarrow> bool" where
  "settled model env chk ctx t =
     (\<not> is_integer (model t) \<or>
      (\<exists>a th. ctx t = Some a \<and> data a \<noteq> [] \<and> get_execution_error_thresh env = Inr th \<and> 0 \<le> th
         \<and> (all_allowed (model t) a \<or> (\<not> chk \<and> rounded a = a))))"

section \<open>The accumulator range of a matrix-vector product\<close>

lemma sum_list_upt: "sum_list (map f [0..<n]) = (\<Sum>i<n. f i)"
  by (simp add: sum_list_distinct_conv_sum_set lessThan_atLeast0)

lemma fold_max_Max: "fold max ys (y::real) = Max (set (y # ys))"
  using Max.set_eq_fold[of y ys] by simp

lemma fold_min_Min: "fold min ys (y::real) = Min (set (y # ys))"
  using Min.set_eq_fold[of y ys] by simp

lemma np_max_map_upt:
  assumes "0 < n"
  shows "np_max (map g [0..<n]) = Inr (Max (g ` {..<n}))"
proof -
  obtain y ys where e: "map g [0..<n] = y # ys"
    using assms by (cases "map g [0..<n]") auto
  have "set (y # ys) = g ` {..<n}"
    unfolding e[symmetric] by (auto simp: lessThan_atLeast0)
  then show ?thesis
    by (simp add: np_max_def e fold_max_Max del: set_simps)
qed

lemma np_min_map_upt:
  assumes "0 < n"
  shows "np_min (map g [0..<n]) = Inr (Min (g ` {..<n}))"
proof -
  obtain y ys where e: "map g [0..<n] = y # ys"
    using assms by (cases "map g [0..<n]") auto
  have "set (y # ys) = g ` {..<n}"
    unfolding e[symmetric] by (auto simp: lessThan_atLeast0)
  then show ?thesis
    by (simp add: np_min_def e fold_min_Min del: set_simps)
qed

lemma flat_index_less: "i < mw \<Longrightarrow> j < mh \<Longrightarrow> i * mh + j < mw * (mh::nat)"
proof -
  assume a: "i < mw" "j < mh"
  have "i * mh + j < i * mh + mh" using a by simp
  also have "\<dots> = Suc i * mh" by simp
  also have "\<dots> \<le> mw * mh" using a by (intro mult_le_mono1) simp
  finally show ?thesis .
qed

lemma weighted_nth:
  "k < length xs \<Longrightarrow> np_mul xs (np_where_pos xs a b) ! k = xs ! k * (if xs ! k > 0 then a else b)"
  by (simp add: np_mul_def np_where_pos_def)

lemma sum_axis0_weighted:
  assumes "wf_ndarray A" "shape A = [mw, mh]"
  shows "sum_axis0 (shape A) (np_mul (data A) (np_where_pos (data A) a b)) =
           Inr (map (col_sum A a b) [0..<mh])"
proof -
  have len: "length (data A) = mw * mh" using assms by (simp add: wf_ndarray_def)
  have "sum_list (map (\<lambda>i. np_mul (data A) (np_where_pos (data A) a b) ! (i * mh + k)) [0..<mw]) = col_sum A a b k"
    if "k < mh" for k
  proof -
    have "(\<Sum>i<mw. np_mul (data A) (np_where_pos (data A) a b) ! (i * mh + k))
          = (\<Sum>i<mw. entry A i k * (if entry A i k > 0 then a else b))"
      by (rule sum.cong) (use that len assms(2) in \<open>simp_all add: weighted_nth flat_index_less entry_def\<close>)
    then show ?thesis by (simp add: sum_list_upt col_sum_def assms(2))
  qed
  then show ?thesis
    by (simp add: sum_axis0_def assms(2))
qed

lemma range_formula:
  assumes "wf_ndarray A" "shape A = [mw, mh]" "0 < mh"
  shows "calculate_matvec_accumulator_range A dt =
     Inr (Min (col_sum A (dt_min dt) (dt_max dt) ` {..<mh}), Max (col_sum A (dt_max dt) (dt_min dt) ` {..<mh}))"
  by (simp add: calculate_matvec_accumulator_range_def sum_axis0_weighted[OF assms(1,2)] np_max_map_upt[OF assms(3)]
      np_min_map_upt[OF assms(3)] del: upt.simps)


lemma term_upper:
  assumes "lo \<le> v" "v \<le> hi"
  shows "v * (e::real) \<le> e * (if e > 0 then hi else lo)"
proof (cases "e > 0")
  case True
  then show ?thesis using assms(2) by (simp add: mult.commute)
next
  case False
  then have "e \<le> 0" by simp
  then have "e * v \<le> e * lo" using assms(1) by (rule mult_left_mono_neg[rotated])
  then show ?thesis using False by (simp add: mult.commute)
qed

lemma term_lower:
  assumes "lo \<le> v" "v \<le> hi"
  shows "e * (if e > 0 then lo else hi) \<le> v * (e::real)"
proof (cases "e > 0")
  case True
  then show ?thesis using assms(1) by (simp add: mult.commute)
next
  case False
  then have "e \<le> 0" by simp
  then have "e * hi \<le> e * v" using assms(2) by (rule mult_left_mono_neg[rotated])
  then show ?thesis using False by (simp add: mult.commute)
qed

lemma in_box_nth: "in_box dt n x \<Longrightarrow> i < n \<Longrightarrow> dt_min dt \<le> x ! i \<and> x ! i \<le> dt_max dt"
  by (auto simp: in_box_def list_all_length)

lemma vecmat_le_col_sum:
  assumes "in_box dt (shape A ! 0) x"
  shows "vecmat x A j \<le> col_sum A (dt_max dt) (dt_min dt) j"
  unfolding vecmat_def col_sum_def
  by (rule sum_mono) (use in_box_nth[OF assms] in \<open>simp add: term_upper\<close>)

lemma col_sum_le_vecmat:
  assumes "in_box dt (shape A ! 0) x"
  shows "col_sum A (dt_min dt) (dt_max dt) j \<le> vecmat x A j"
  unfolding vecmat_def col_sum_def
  by (rule sum_mono) (use in_box_nth[OF assms] in \<open>simp add: term_lower\<close>)

lemma extremal_in_box:
  "dt_min dt \<le> dt_max dt \<Longrightarrow> in_box dt (shape A ! 0) (extremal A (dt_max dt) (dt_min dt) j)"
  "dt_min dt \<le> dt_max dt \<Longrightarrow> in_box dt (shape A ! 0) (extremal A (dt_min dt) (dt_max dt) j)"
  by (auto simp: in_box_def extremal_def list_all_length)

lemma vecmat_extremal: "vecmat (extremal A a b j) A j = col_sum A a b j"
  unfolding vecmat_def col_sum_def
  by (rule sum.cong) (simp_all add: extremal_def mult.commute)

lemma lessThan_2: "{..<2::nat} = {0, 1}"
  by auto

text \<open>
  Claim C1. For a well-formed matrix \<open>A\<close> of shape \<open>(mw, mh)\<close> with at least one column
  and a datatype whose minimum is at most its maximum,
  \<open>calculate_matvec_accumulator_range\<close> returns the pair \<open>(lo, hi)\<close> where \<open>hi\<close> is the
  maximum over the columns \<open>j\<close> of the sum over \<open>i\<close> of \<open>A[i,j]\<close> times the datatype's
  maximum where \<open>A[i,j] > 0\<close> and its minimum elsewhere, and \<open>lo\<close> the minimum over the
  columns of the same sum with minimum and maximum exchanged. Every component of \<open>x \<cdot> A\<close>
  lies between \<open>lo\<close> and \<open>hi\<close> for every vector \<open>x\<close> with all elements in the datatype's
  range, and both bounds are reached by such a vector, so no tighter bound exists.
\<close>

theorem matvec_accumulator_range_tight:
  assumes wf: "wf_ndarray A" and shp: "shape A = [mw, mh]" and pos: "0 < mh"
    and box: "dt_min dt \<le> dt_max dt"
  shows "\<exists>lo hi. calculate_matvec_accumulator_range A dt = Inr (lo, hi)
     \<and> hi = Max ((\<lambda>j. \<Sum>i<mw. entry A i j * (if entry A i j > 0 then dt_max dt else dt_min dt)) ` {..<mh})
     \<and> lo = Min ((\<lambda>j. \<Sum>i<mw. entry A i j * (if entry A i j > 0 then dt_min dt else dt_max dt)) ` {..<mh})
     \<and> (\<forall>x j. in_box dt mw x \<and> j < mh \<longrightarrow> lo \<le> vecmat x A j \<and> vecmat x A j \<le> hi)
     \<and> (\<exists>x j. in_box dt mw x \<and> j < mh \<and> vecmat x A j = hi)
     \<and> (\<exists>x j. in_box dt mw x \<and> j < mh \<and> vecmat x A j = lo)"
proof -
  let ?up = "col_sum A (dt_max dt) (dt_min dt)"
  let ?dn = "col_sum A (dt_min dt) (dt_max dt)"
  let ?hi = "Max (?up ` {..<mh})"
  let ?lo = "Min (?dn ` {..<mh})"
  have mw: "shape A ! 0 = mw" using shp by simp
  have fin: "finite (?up ` {..<mh})" "finite (?dn ` {..<mh})" by simp_all
  have ne: "?up ` {..<mh} \<noteq> {}" "?dn ` {..<mh} \<noteq> {}" using pos by auto
  have res: "calculate_matvec_accumulator_range A dt = Inr (?lo, ?hi)"
    by (rule range_formula[OF wf shp pos])
  have bound: "?lo \<le> vecmat x A j \<and> vecmat x A j \<le> ?hi" if "in_box dt mw x" "j < mh" for x j
  proof
    have "?lo \<le> ?dn j" using that(2) by (intro Min_le) auto
    also have "\<dots> \<le> vecmat x A j" using that(1) mw by (simp add: col_sum_le_vecmat)
    finally show "?lo \<le> vecmat x A j" .
    have "vecmat x A j \<le> ?up j" using that(1) mw by (simp add: vecmat_le_col_sum)
    also have "\<dots> \<le> ?hi" using that(2) by (intro Max_ge) auto
    finally show "vecmat x A j \<le> ?hi" .
  qed
  obtain jh where jh: "jh < mh" "?up jh = ?hi"
    using Max_in[OF fin(1) ne(1)] by auto
  obtain jl where jl: "jl < mh" "?dn jl = ?lo"
    using Min_in[OF fin(2) ne(2)] by auto
  have hi_att: "\<exists>x j. in_box dt mw x \<and> j < mh \<and> vecmat x A j = ?hi"
    using extremal_in_box(1)[OF box, of A jh] jh mw vecmat_extremal[of A "dt_max dt" "dt_min dt" jh]
    by auto
  have lo_att: "\<exists>x j. in_box dt mw x \<and> j < mh \<and> vecmat x A j = ?lo"
    using extremal_in_box(2)[OF box, of A jl] jl mw vecmat_extremal[of A "dt_min dt" "dt_max dt" jl]
    by auto
  show ?thesis
    using res bound hi_att lo_att by (simp add: col_sum_def mw)
qed

theorem matvec_accumulator_range_tight_witness:
  "wf_ndarray example_matrix \<and> shape example_matrix = [2, 2] \<and> (0::nat) < 2
   \<and> dt_min (dt_INT 2) \<le> dt_max (dt_INT 2)
   \<and> calculate_matvec_accumulator_range example_matrix (dt_INT 2) = Inr (- 10, 8)"
proof -
  have h: "wf_ndarray example_matrix" "shape example_matrix = [2, 2]" "(0::nat) < 2"
    "dt_min (dt_INT 2) \<le> dt_max (dt_INT 2)"
    by (simp_all add: wf_ndarray_def example_matrix_def dt_INT_def)
  from matvec_accumulator_range_tight[OF h]
  obtain lo hi where r: "calculate_matvec_accumulator_range example_matrix (dt_INT 2) = Inr (lo, hi)"
    and hi: "hi = Max ((\<lambda>j. \<Sum>i<2. entry example_matrix i j *
                 (if entry example_matrix i j > 0 then dt_max (dt_INT 2) else dt_min (dt_INT 2))) ` {..<2})"
    and lo: "lo = Min ((\<lambda>j. \<Sum>i<2. entry example_matrix i j *
                 (if entry example_matrix i j > 0 then dt_min (dt_INT 2) else dt_max (dt_INT 2))) ` {..<2})"
    by blast
  have "hi = 8" unfolding hi by (simp add: lessThan_2 entry_def example_matrix_def dt_INT_def)
  moreover have "lo = - 10" unfolding lo by (simp add: lessThan_2 entry_def example_matrix_def dt_INT_def)
  ultimately show ?thesis using h r by simp
qed

section \<open>The range of a signed dot product\<close>

lemma foldl_prod_step: "foldl prod_step (mn, mx) ps = (fold min ps mn, fold max ps mx)"
  by (induction ps arbitrary: mn mx) (auto simp: prod_step_def Let_def min_def max_def)

lemma corners_eq: "corners a b = {dt_min a * dt_min b, dt_min a * dt_max b, dt_max a * dt_min b, dt_max a * dt_max b}"
  by (auto simp: corners_def)

lemma range_general:
  "calculate_signed_dot_prod_range a b len =
    (if dt_signed a \<and> dt_signed b then
      Inr (min (2^30) (Min ((\<lambda>p. p * of_int len) ` corners a b)), max (- (2^30)) (Max ((\<lambda>p. p * of_int len) ` corners a b)))
     else Inl AssertionError)"
  unfolding calculate_signed_dot_prod_range_def foldl_prod_step
  by (simp add: corner_prods_def corners_eq min.assoc min.commute min.left_commute max.assoc max.commute max.left_commute)

lemma corners_straddle:
  assumes "dt_min dt_a \<le> 0" "0 \<le> dt_max dt_a" "dt_min dt_b \<le> 0" "0 \<le> dt_max dt_b" "0 < len"
  shows "of_int len * Min (corners dt_a dt_b) \<le> 2 ^ 30"
    and "- (2 ^ 30) \<le> of_int len * Max (corners dt_a dt_b)"
proof -
  let ?c = "of_int len :: real"
  have c: "0 < ?c" using assms(5) by simp
  have fin: "finite (corners dt_a dt_b)" by (simp add: corners_eq)
  have "Min (corners dt_a dt_b) \<le> dt_min dt_a * dt_max dt_b"
    by (rule Min_le[OF fin]) (simp add: corners_eq)
  also have "\<dots> \<le> 0" using assms(1,4) by (rule mult_nonpos_nonneg)
  finally have "?c * Min (corners dt_a dt_b) \<le> 0"
    using c by (simp add: mult_le_0_iff)
  then show "?c * Min (corners dt_a dt_b) \<le> 2 ^ 30" by simp
  have "0 \<le> dt_min dt_a * dt_min dt_b" using assms(1,3) by (rule mult_nonpos_nonpos)
  also have "\<dots> \<le> Max (corners dt_a dt_b)"
    by (rule Max_ge[OF fin]) (simp add: corners_eq)
  finally have "0 \<le> ?c * Max (corners dt_a dt_b)" using c by simp
  then show "- (2 ^ 30) \<le> ?c * Max (corners dt_a dt_b)" by simp
qed

text \<open>
  Where both ranges contain zero, as the ranges of the catalogue's signed datatypes do,
  the function returns the length times the smallest and the length times the largest
  of the four corner products, and the same with \<open>dt_a\<close> and \<open>dt_b\<close> exchanged.
\<close>

lemma signed_dot_prod_range_straddle:
  assumes "dt_signed dt_a" and "dt_signed dt_b" and "0 < len"
    and "dt_min dt_a \<le> 0" and "0 \<le> dt_max dt_a" and "dt_min dt_b \<le> 0" and "0 \<le> dt_max dt_b"
  shows "calculate_signed_dot_prod_range dt_a dt_b len =
           Inr (of_int len * Min (corners dt_a dt_b), of_int len * Max (corners dt_a dt_b))
         \<and> calculate_signed_dot_prod_range dt_b dt_a len =
           calculate_signed_dot_prod_range dt_a dt_b len"
proof -
  let ?c = "of_int len :: real"
  have c: "0 < ?c" using assms(3) by simp
  have img: "(\<lambda>p. p * ?c) ` corners dt_a dt_b = (\<lambda>p. ?c * p) ` corners dt_a dt_b"
    by (simp add: mult.commute)
  have fin: "finite (corners dt_a dt_b)" "corners dt_a dt_b \<noteq> {}" by (simp_all add: corners_eq)
  have mono: "mono (\<lambda>p. ?c * p)" using c by (simp add: mono_def)
  have mn: "Min ((\<lambda>p. p * ?c) ` corners dt_a dt_b) = ?c * Min (corners dt_a dt_b)"
    unfolding img using mono_Min_commute[OF mono fin] by simp
  have mx: "Max ((\<lambda>p. p * ?c) ` corners dt_a dt_b) = ?c * Max (corners dt_a dt_b)"
    unfolding img using mono_Max_commute[OF mono fin] by simp
  have sym: "corners dt_b dt_a = corners dt_a dt_b"
    by (auto simp: corners_eq mult.commute)
  have "?c * Min (corners dt_a dt_b) \<le> 2 ^ 30 \<and> - (2 ^ 30) \<le> ?c * Max (corners dt_a dt_b)"
    using corners_straddle[OF assms(4-7) assms(3)] by blast
  then show ?thesis
    using assms(1,2) by (simp add: range_general mn mx sym)
qed

lemma signed_dot_prod_range_example:
  "calculate_signed_dot_prod_range (dt_INT 2) (dt_INT 8) 3 = Inr (- 762, 768)
   \<and> calculate_signed_dot_prod_range (dt_INT 8) (dt_INT 2) 3 = Inr (- 762, 768)"
proof -
  have h: "dt_signed (dt_INT 2)" "dt_signed (dt_INT 8)" "(0::int) < 3"
    "dt_min (dt_INT 2) \<le> 0" "0 \<le> dt_max (dt_INT 2)"
    "dt_min (dt_INT 8) \<le> 0" "0 \<le> dt_max (dt_INT 8)"
    by (simp_all add: dt_INT_def)
  have v: "of_int 3 * Min (corners (dt_INT 2) (dt_INT 8)) = - 762"
    "of_int 3 * Max (corners (dt_INT 2) (dt_INT 8)) = 768"
    by (simp_all add: dt_INT_def corners_eq)
  show ?thesis
    using signed_dot_prod_range_straddle[OF h] unfolding v by simp
qed


section \<open>Interleaving the rows of a matrix\<close>

lemma length_concat_map_upt:
  "(\<And>p. p < n \<Longrightarrow> length (f p) = L) \<Longrightarrow> length (concat (map f [0..<n])) = n * L"
  by (induction n) simp_all

lemma concat_map_upt_nth:
  assumes "\<And>p. p < n \<Longrightarrow> length (f p) = L" "p < n" "k < L"
  shows "concat (map f [0..<n]) ! (p * L + k) = f p ! k"
  using assms
proof (induction n)
  case 0
  then show ?case by simp
next
  case (Suc n)
  have len: "length (concat (map f [0..<n])) = n * L"
    using Suc.prems(1) by (intro length_concat_map_upt) simp
  show ?case
  proof (cases "p < n")
    case True
    have "p * L + k < p * L + L" using Suc.prems(3) by simp
    also have "\<dots> = Suc p * L" by simp
    also have "\<dots> \<le> n * L" using True by (intro mult_le_mono1) simp
    finally have "p * L + k < n * L" .
    then show ?thesis
      using Suc.IH[OF _ True Suc.prems(3)] Suc.prems(1) len by (simp add: nth_append)
  next
    case False
    then have "p = n" using Suc.prems(2) by simp
    then show ?thesis using len Suc.prems by (simp add: nth_append)
  qed
qed

lemma transpose_102_shape_data:
  assumes "shape a = [d0, d1, d2]"
  shows "\<exists>r. transpose_102 a = Inr r \<and> shape r = [d1, d0, d2] \<and> dtype r = dtype a
           \<and> length (data r) = d1 * (d0 * d2)
           \<and> (\<forall>p q c. p < d1 \<and> q < d0 \<and> c < d2 \<longrightarrow>
                 data r ! ((p * d0 + q) * d2 + c) = data a ! ((q * d1 + p) * d2 + c))"
proof -
  let ?row = "\<lambda>p q. map (\<lambda>c. data a ! ((q * d1 + p) * d2 + c)) [0..<d2]"
  let ?blk = "\<lambda>p. concat (map (?row p) [0..<d0])"
  let ?all = "concat (map ?blk [0..<d1])"
  have lblk: "length (?blk p) = d0 * d2" for p
    by (rule length_concat_map_upt) simp
  have lall: "length ?all = d1 * (d0 * d2)"
    by (rule length_concat_map_upt) (rule lblk)
  have nth: "?all ! ((p * d0 + q) * d2 + c) = data a ! ((q * d1 + p) * d2 + c)"
    if "p < d1" "q < d0" "c < d2" for p q c
  proof -
    have "q * d2 + c < q * d2 + d2" using that(3) by simp
    also have "\<dots> = Suc q * d2" by simp
    also have "\<dots> \<le> d0 * d2" using that(2) by (intro mult_le_mono1) simp
    finally have k: "q * d2 + c < d0 * d2" .
    have e: "(p * d0 + q) * d2 + c = p * (d0 * d2) + (q * d2 + c)"
      by (simp add: algebra_simps)
    have "?all ! (p * (d0 * d2) + (q * d2 + c)) = ?blk p ! (q * d2 + c)"
      by (rule concat_map_upt_nth) (use lblk that(1) k in simp_all)
    also have "\<dots> = ?row p q ! c"
      by (rule concat_map_upt_nth) (use that(2,3) in simp_all)
    also have "\<dots> = data a ! ((q * d1 + p) * d2 + c)" using that(3) by simp
    finally show ?thesis unfolding e .
  qed
  show ?thesis
    using lall nth by (simp add: transpose_102_def assms)
qed


lemma np_reshape_infer_first:
  assumes "0 < N" "0 < C" "length (data a) = Q * N * C"
  shows "np_reshape a [- 1, int N, int C] = Inr (a\<lparr>shape := [Q, N, C]\<rparr>)"
proof -
  have sz: "int (length (data a)) = int Q * (int N * int C)"
    using assms(3) by (simp add: mult.assoc)
  have nz: "int N * int C \<noteq> 0" using assms(1,2) by simp
  have d: "int Q * (int N * int C) div (int N * int C) = int Q"
    using nz by simp
  show ?thesis
    unfolding np_reshape_def Let_def sz
    using assms(1,2) nz d by simp
qed

lemma np_reshape_infer_middle:
  assumes "0 < N" "0 < C" "length (data a) = N * (Q * C)"
  shows "np_reshape a [int N, - 1, int C] = Inr (a\<lparr>shape := [N, Q, C]\<rparr>)"
proof -
  have sz: "int (length (data a)) = int Q * (int N * int C)"
    using assms(3) by (simp add: mult.assoc mult.left_commute)
  have nz: "int N * int C \<noteq> 0" using assms(1,2) by simp
  have d: "int Q * (int N * int C) div (int N * int C) = int Q"
    using nz by simp
  show ?thesis
    unfolding np_reshape_def Let_def sz
    using assms(1,2) nz d by simp
qed

lemma take_drop_eq_nth:
  assumes "a + C \<le> length xs" "b + C \<le> length ys" "\<And>c. c < C \<Longrightarrow> xs ! (a + c) = ys ! (b + c)"
  shows "take C (drop a xs) = take C (drop b ys)"
proof (rule nth_equalityI)
  have "length (take C (drop a xs)) = C" using assms(1) by simp
  moreover have "length (take C (drop b ys)) = C" using assms(2) by simp
  ultimately show "length (take C (drop a xs)) = length (take C (drop b ys))" by simp
next
  fix i assume "i < length (take C (drop a xs))"
  then have i: "i < C" by simp
  then show "take C (drop a xs) ! i = take C (drop b ys) ! i"
    using assms by simp
qed

lemma interleave_general:
  assumes conv: "to_float_container matrix0 = Inr m"
    and wf: "wf_ndarray m" and shp: "shape m = [R, C]"
    and npos: "0 < n" and dvd: "int R mod n = 0" and cpos: "0 < C"
  shows "\<exists>r. interleave_matrix_outer_dim_from_partitions matrix0 n = Inr r
           \<and> shape r = [nat n, R div nat n, C]
           \<and> (\<forall>i < R. partition_row r (i mod nat n) (i div nat n) = matrix_row m i)"
proof -
  define N where "N = nat n"
  define Q where "Q = R div N"
  have n: "n = int N" and Npos: "0 < N" using npos by (simp_all add: N_def)
  have "int (R mod N) = 0" using dvd unfolding n by (simp add: zmod_int)
  then have "N dvd R" by (simp add: dvd_eq_mod_eq_0)
  then have RN: "R = Q * N" by (simp add: Q_def)
  have len: "length (data m) = Q * N * C" using wf shp RN by (simp add: wf_ndarray_def)
  have r1: "np_reshape m [- 1, n, int C] = Inr (m\<lparr>shape := [Q, N, C]\<rparr>)"
    unfolding n by (rule np_reshape_infer_first[OF Npos cpos len])
  obtain r2 where r2: "transpose_102 (m\<lparr>shape := [Q, N, C]\<rparr>) = Inr r2"
    and s2: "shape r2 = [N, Q, C]" and l2: "length (data r2) = N * (Q * C)"
    and d2: "\<And>p q c. p < N \<Longrightarrow> q < Q \<Longrightarrow> c < C \<Longrightarrow>
                 data r2 ! ((p * Q + q) * C + c) = data m ! ((q * N + p) * C + c)"
    using transpose_102_shape_data[of "m\<lparr>shape := [Q, N, C]\<rparr>" Q N C] by auto
  have r3: "np_reshape r2 [n, - 1, int C] = Inr (r2\<lparr>shape := [N, Q, C]\<rparr>)"
    unfolding n by (rule np_reshape_infer_middle[OF Npos cpos l2])
  have res: "interleave_matrix_outer_dim_from_partitions matrix0 n = Inr (r2\<lparr>shape := [N, Q, C]\<rparr>)"
    using npos dvd by (simp add: interleave_matrix_outer_dim_from_partitions_def conv shp r1 r2 r3)
  have rows: "partition_row (r2\<lparr>shape := [N, Q, C]\<rparr>) (i mod N) (i div N) = matrix_row m i"
    if "i < R" for i
  proof -
    let ?p = "i mod N" and ?q = "i div N"
    have p: "?p < N" using Npos by simp
    have q: "?q < Q" using that RN Npos by (simp add: less_mult_imp_div_less)
    have i: "?q * N + ?p = i" by simp
    have "?p * Q + ?q < ?p * Q + Q" using q by simp
    also have "\<dots> = Suc ?p * Q" by simp
    also have "\<dots> \<le> N * Q" using p by (intro mult_le_mono1) simp
    finally have "Suc (?p * Q + ?q) * C \<le> (N * Q) * C" by (intro mult_le_mono1) simp
    then have b1: "(?p * Q + ?q) * C + C \<le> length (data r2)" using l2 by (simp add: mult.assoc)
    have "Suc i * C \<le> R * C" using that by (intro mult_le_mono1) simp
    then have b2: "i * C + C \<le> length (data m)" using len RN by simp
    have "take C (drop ((?p * Q + ?q) * C) (data r2)) = take C (drop (i * C) (data m))"
    proof (rule take_drop_eq_nth[OF b1 b2])
      fix c assume "c < C"
      then show "data r2 ! ((?p * Q + ?q) * C + c) = data m ! (i * C + c)"
        using d2[OF p q] i by simp
    qed
    then show ?thesis by (simp add: partition_row_def matrix_row_def shp)
  qed
  show ?thesis using res rows by (simp add: N_def Q_def)
qed

lemma interleave_example:
  "interleave_matrix_outer_dim_from_partitions
     (Ndarray \<lparr>dtype = Float32, shape = [4, 2], data = [a0, a1, b0, b1, c0, c1, d0, d1]\<rparr>) 2
   = Inr \<lparr>dtype = Float32, shape = [2, 2, 2], data = [a0, a1, c0, c1, b0, b1, d0, d1]\<rparr>"
  by (simp add: interleave_matrix_outer_dim_from_partitions_def to_float_container_def
      np_reshape_def transpose_102_def upt_rec)

text \<open>
  Claim C8. Let the input, once in its float container, be a well-formed matrix with
  \<open>R\<close> rows and \<open>C > 0\<close> columns, and let the number of partitions \<open>n > 0\<close> divide \<open>R\<close>.
  Then \<open>interleave_matrix_outer_dim_from_partitions\<close> returns an array of shape
  \<open>(n, R div n, C)\<close> in which row \<open>i\<close> of the matrix is row \<open>i div n\<close> of partition
  \<open>i mod n\<close>. In particular a 4x2 matrix with the rows \<open>a, b, c, d\<close> and two partitions
  gives the partitions \<open>[a, c]\<close> and \<open>[b, d]\<close>.
\<close>

theorem interleave_row_placement:
  assumes "to_float_container matrix0 = Inr m"
    and "wf_ndarray m" and "shape m = [R, C]"
    and "0 < n" and "int R mod n = 0" and "0 < C"
  shows "(\<exists>r. interleave_matrix_outer_dim_from_partitions matrix0 n = Inr r
            \<and> shape r = [nat n, R div nat n, C]
            \<and> (\<forall>i < R. partition_row r (i mod nat n) (i div nat n) = matrix_row m i))
         \<and> interleave_matrix_outer_dim_from_partitions
              (Ndarray \<lparr>dtype = Float32, shape = [4, 2], data = [a0, a1, b0, b1, c0, c1, d0, d1]\<rparr>) 2
            = Inr \<lparr>dtype = Float32, shape = [2, 2, 2], data = [a0, a1, c0, c1, b0, b1, d0, d1]\<rparr>"
  using interleave_general[OF assms] interleave_example by blast

theorem interleave_row_placement_witness:
  "to_float_container (Ndarray example_rows) = Inr example_rows
   \<and> wf_ndarray example_rows \<and> shape example_rows = [4, 2]
   \<and> (0::int) < 2 \<and> int 4 mod 2 = 0 \<and> (0::nat) < 2
   \<and> (\<exists>r. interleave_matrix_outer_dim_from_partitions (Ndarray example_rows) 2 = Inr r
          \<and> shape r = [2, 2, 2]
          \<and> partition_row r 0 0 = [1, 2] \<and> partition_row r 0 1 = [5, 6]
          \<and> partition_row r 1 0 = [3, 4] \<and> partition_row r 1 1 = [7, 8])"
proof -
  have h: "to_float_container (Ndarray example_rows) = Inr example_rows"
    "wf_ndarray example_rows" "shape example_rows = [4, 2]"
    "(0::int) < 2" "int 4 mod 2 = 0" "(0::nat) < 2"
    by (simp_all add: to_float_container_def example_rows_def wf_ndarray_def)
  from interleave_row_placement[OF h]
  obtain r where r: "interleave_matrix_outer_dim_from_partitions (Ndarray example_rows) 2 = Inr r"
    and s: "shape r = [nat 2, 4 div nat 2, 2]"
    and rows: "\<And>i. i < 4 \<Longrightarrow> partition_row r (i mod nat 2) (i div nat 2) = matrix_row example_rows i"
    by blast
  have "partition_row r 0 0 = [1, 2]" using rows[of 0] by (simp add: matrix_row_def example_rows_def)
  moreover have "partition_row r 1 0 = [3, 4]" using rows[of 1] by (simp add: matrix_row_def example_rows_def)
  moreover have "partition_row r 0 1 = [5, 6]" using rows[of 2] by (simp add: matrix_row_def example_rows_def)
  moreover have "partition_row r 1 1 = [7, 8]" using rows[of 3] by (simp add: matrix_row_def example_rows_def)
  ultimately show ?thesis using h r s by simp
qed

section \<open>Padding to a multiple\<close>

lemma roundup_error: "roundup_to_integer_multiple x f = Inl e \<Longrightarrow> e = AssertionError"
  by (auto simp: roundup_to_integer_multiple_def split: if_splits)

lemma roundup_fails:
  "f \<noteq> - 1 \<Longrightarrow> f \<le> 0 \<or> x \<le> 0 \<Longrightarrow> roundup_to_integer_multiple x f = Inl AssertionError"
  by (auto simp: roundup_to_integer_multiple_def)

lemma roundup_least_multiple:
  assumes "roundup_to_integer_multiple x f = Inr t"
  shows "(f = - 1 \<and> t = x) \<or>
         (0 < f \<and> 0 < x \<and> f dvd t \<and> x \<le> t \<and> (\<forall>k. x \<le> k * f \<longrightarrow> t \<le> k * f))"
proof (cases "f = - 1")
  case True
  then show ?thesis using assms by (simp add: roundup_to_integer_multiple_def)
next
  case False
  then have pos: "0 < f" "0 < x"
    using assms by (auto simp: roundup_to_integer_multiple_def split: if_splits)
  have least: "t \<le> k * f" if t: "t = (x div f + (if x mod f = 0 then 0 else 1)) * f" and k: "x \<le> k * f" for k
  proof -
    have "x div f + (if x mod f = 0 then 0 else 1) \<le> k"
    proof (cases "x mod f = 0")
      case True
      have "x div f \<le> (k * f) div f" using k by (rule zdiv_mono1) (rule pos(1))
      then show ?thesis using True pos(1) by simp
    next
      case False
      have "x div f < k"
      proof (rule ccontr)
        assume "\<not> x div f < k"
        then have "k \<le> x div f" by simp
        then have "k * f \<le> (x div f) * f" using pos(1) by (simp add: mult_right_mono)
        also have "\<dots> = x - x mod f" by (simp add: minus_mod_eq_div_mult)
        also have "\<dots> < x"
        proof -
          have "0 \<le> x mod f" using pos(1) by simp
          then show ?thesis using False by linarith
        qed
        finally show False using k by simp
      qed
      then show ?thesis using False by simp
    qed
    then show ?thesis unfolding t using pos(1) by (simp add: mult_right_mono)
  qed
  show ?thesis
  proof (cases "x < f")
    case True
    then have t: "t = f" using assms False pos by (simp add: roundup_to_integer_multiple_def)
    have "f \<le> k * f" if "x \<le> k * f" for k
    proof -
      have "0 < k * f" using that pos(2) by simp
      then have "0 < k" using pos(1) by (simp add: zero_less_mult_iff)
      then show ?thesis using pos(1) by simp
    qed
    then show ?thesis using t pos True by simp
  next
    case ge: False
    show ?thesis
    proof (cases "x mod f = 0")
      case True
      then have t: "t = x" using assms False pos ge by (simp add: roundup_to_integer_multiple_def)
      then show ?thesis using pos True by (auto simp: dvd_eq_mod_eq_0)
    next
      case nz: False
      then have t: "t = x + (f - x mod f)"
        using assms False pos ge by (simp add: roundup_to_integer_multiple_def)
      have "x + (f - x mod f) = (x - x mod f) + f" by simp
      also have "\<dots> = x div f * f + f" by (simp only: minus_mod_eq_div_mult)
      also have "\<dots> = (x div f + 1) * f" by (simp add: algebra_simps)
      finally have t': "t = (x div f + (if x mod f = 0 then 0 else 1)) * f"
        using nz t by simp
      have "f dvd t" unfolding t' by simp
      moreover have "x \<le> t" unfolding t using pos_mod_bound[OF pos(1), of x] by simp
      ultimately show ?thesis using pos least[OF t'] by simp
    qed
  qed
qed

lemma map_result_Inr:
  "map_result f xs = Inr ys \<Longrightarrow> length ys = length xs \<and> (\<forall>i < length xs. f (xs ! i) = Inr (ys ! i))"
proof (induction xs arbitrary: ys)
  case Nil
  then show ?case by simp
next
  case (Cons x xs)
  then obtain y ys' where y: "f x = Inr y" and ys': "map_result f xs = Inr ys'" and e: "ys = y # ys'"
    by (auto split: sum.splits)
  show ?case using Cons.IH[OF ys'] y e by (auto simp: nth_Cons split: nat.splits)
qed

lemma map_result_Inl:
  "map_result f xs = Inl e \<Longrightarrow> \<exists>x \<in> set xs. f x = Inl e"
  by (induction xs) (auto split: sum.splits)

lemma asarray_int32_Inr: "asarray_int32 xs = Inr ys \<Longrightarrow> ys = xs"
  by (auto simp: asarray_int32_def split: if_splits)

lemma np_pad_dtype: "np_pad a pw val = Inr r \<Longrightarrow> dtype r = dtype a"
  by (auto simp: np_pad_def Let_def split: if_splits)

lemma pad_success:
  assumes conv: "to_float_container x = Inr a"
    and res: "pad_tensor_to_multiple_of x factors val distr = Inr ret"
  shows "length (shape a) = length factors \<and> length (shape ret) = length factors
         \<and> dtype ret = dtype a
         \<and> (\<forall>d < length factors.
               roundup_to_integer_multiple (int (shape a ! d)) (factors ! d) = Inr (int (shape ret ! d)))"
proof -
  let ?zs = "zip (map int (shape a)) factors"
  let ?f = "\<lambda>x. roundup_to_integer_multiple (fst x) (snd x)"
  have len: "length (shape a) = length factors"
    using res conv by (auto simp: pad_tensor_to_multiple_of_def split: if_splits)
  obtain desired0 where m: "map_result ?f ?zs = Inr desired0"
    using res conv len by (auto simp: pad_tensor_to_multiple_of_def split: sum.splits)
  obtain desired where d: "asarray_int32 desired0 = Inr desired"
    using res conv len m by (auto simp: pad_tensor_to_multiple_of_def split: sum.splits)
  have dd: "desired = desired0" using d by (rule asarray_int32_Inr)
  obtain current where c: "asarray_int32 (map int (shape a)) = Inr current"
    using res conv len m d by (auto simp: pad_tensor_to_multiple_of_def split: sum.splits)
  obtain pw where p: "np_pad a pw val = Inr ret" and sh: "map int (shape ret) = desired"
    using res conv len m d c
    by (auto simp: pad_tensor_to_multiple_of_def Let_def split: sum.splits if_splits)
  have l0: "length desired0 = length factors"
    using map_result_Inr[OF m] len by simp
  have lr: "length (shape ret) = length factors"
    using sh dd l0 by (metis length_map)
  have each: "roundup_to_integer_multiple (int (shape a ! d)) (factors ! d) = Inr (int (shape ret ! d))"
    if "d < length factors" for d
  proof -
    have "?f (?zs ! d) = Inr (desired0 ! d)"
      using map_result_Inr[OF m] that len by simp
    moreover have "desired0 ! d = int (shape ret ! d)"
      using sh dd that lr by (metis nth_map)
    ultimately show ?thesis using that len by simp
  qed
  show ?thesis using len lr np_pad_dtype[OF p] each by simp
qed

lemma pad_fails:
  assumes conv: "to_float_container x = Inr a"
    and len: "length factors = length (shape a)"
    and d: "d < length factors" "factors ! d \<noteq> - 1" "factors ! d \<le> 0 \<or> shape a ! d = 0"
  shows "pad_tensor_to_multiple_of x factors val distr = Inl AssertionError"
proof -
  let ?zs = "zip (map int (shape a)) factors"
  let ?f = "\<lambda>x. roundup_to_integer_multiple (fst x) (snd x)"
  have bad: "?f (?zs ! d) = Inl AssertionError"
    using d len by (simp add: roundup_fails)
  have "map_result ?f ?zs = Inl AssertionError"
  proof (cases "map_result ?f ?zs")
    case (Inl e)
    then obtain z where "?f z = Inl e" using map_result_Inl by blast
    then have "e = AssertionError" by (rule roundup_error)
    then show ?thesis using Inl by simp
  next
    case (Inr ys)
    then have "?f (?zs ! d) = Inr (ys ! d)"
      using map_result_Inr[OF Inr] d(1) len by simp
    then show ?thesis using bad by simp
  qed
  then show ?thesis
    using conv len by (simp add: pad_tensor_to_multiple_of_def)
qed

lemma pad_example:
  "pad_tensor_to_multiple_of (Ndarray example_pad_input) [4, - 1] 0 False
   = Inr \<lparr>dtype = Float32, shape = [8, 3],
          data = [1, 2, 3, 4, 5, 6, 7, 8, 9, 10, 11, 12, 13, 14, 15, 0, 0, 0, 0, 0, 0, 0, 0, 0]\<rparr>"
  by (simp add: pad_tensor_to_multiple_of_def to_float_container_def example_pad_input_def
      roundup_to_integer_multiple_def asarray_int32_def np_pad_def padded_shape_def upt_rec
      numeral_eq_Suc)

lemma pad_example_distributed:
  "pad_tensor_to_multiple_of (Ndarray example_pad_input) [4, - 1] 0 True
   = Inr \<lparr>dtype = Float32, shape = [8, 3],
          data = [0, 0, 0, 1, 2, 3, 4, 5, 6, 7, 8, 9, 10, 11, 12, 13, 14, 15, 0, 0, 0, 0, 0, 0]\<rparr>"
  by (simp add: pad_tensor_to_multiple_of_def to_float_container_def example_pad_input_def
      roundup_to_integer_multiple_def asarray_int32_def np_pad_def padded_shape_def upt_rec
      numeral_eq_Suc)

text \<open>
  Claim C9, as stated, fails: an array of shape \<open>(0)\<close> has a dimension whose size before
  padding is not above zero, and with the factor \<open>-1\<close> the function returns it unchanged.
\<close>

theorem pad_counterexample:
  "to_float_container (Ndarray empty_array) = Inr empty_array
   \<and> shape empty_array ! 0 \<le> 0
   \<and> pad_tensor_to_multiple_of (Ndarray empty_array) [- 1] 0 False = Inr empty_array"
  by (simp add: pad_tensor_to_multiple_of_def to_float_container_def empty_array_def
      roundup_to_integer_multiple_def asarray_int32_def np_pad_def padded_shape_def)

text \<open>
  Claim C9, amended. For an input that converts to the array \<open>a\<close> and a factor list of
  matching length, \<open>pad_tensor_to_multiple_of\<close> fails whenever some dimension has a
  factor other than \<open>-1\<close> and that factor or the size of the dimension is not above zero.
  When it succeeds, the size of each dimension of the result is the size of the input's
  where the factor is \<open>-1\<close>, and otherwise the smallest multiple of the factor that is at
  least the size of the input's.
\<close>

theorem pad_target_sizes:
  assumes "to_float_container x = Inr a" and "length factors = length (shape a)"
  shows "((\<exists>d < length factors. factors ! d \<noteq> - 1 \<and> (factors ! d \<le> 0 \<or> shape a ! d = 0))
            \<longrightarrow> pad_tensor_to_multiple_of x factors val distr = Inl AssertionError)
         \<and> (\<forall>ret. pad_tensor_to_multiple_of x factors val distr = Inr ret \<longrightarrow>
               length (shape ret) = length factors
               \<and> (\<forall>d < length factors.
                     if factors ! d = - 1 then shape ret ! d = shape a ! d
                     else factors ! d dvd int (shape ret ! d)
                          \<and> shape a ! d \<le> shape ret ! d
                          \<and> (\<forall>k. int (shape a ! d) \<le> k * factors ! d
                                 \<longrightarrow> int (shape ret ! d) \<le> k * factors ! d)))"
proof (intro conjI allI impI)
  assume "\<exists>d < length factors. factors ! d \<noteq> - 1 \<and> (factors ! d \<le> 0 \<or> shape a ! d = 0)"
  then show "pad_tensor_to_multiple_of x factors val distr = Inl AssertionError"
    using pad_fails[OF assms] by blast
next
  fix ret assume r: "pad_tensor_to_multiple_of x factors val distr = Inr ret"
  show "length (shape ret) = length factors"
    using pad_success[OF assms(1) r] by simp
next
  fix ret d
  assume r: "pad_tensor_to_multiple_of x factors val distr = Inr ret" and d: "d < length factors"
  have "roundup_to_integer_multiple (int (shape a ! d)) (factors ! d) = Inr (int (shape ret ! d))"
    using pad_success[OF assms(1) r] d by simp
  from roundup_least_multiple[OF this]
  show "if factors ! d = - 1 then shape ret ! d = shape a ! d
        else factors ! d dvd int (shape ret ! d) \<and> shape a ! d \<le> shape ret ! d
             \<and> (\<forall>k. int (shape a ! d) \<le> k * factors ! d \<longrightarrow> int (shape ret ! d) \<le> k * factors ! d)"
    by auto
qed

theorem pad_target_sizes_witness:
  "to_float_container (Ndarray example_pad_input) = Inr example_pad_input
   \<and> length [4, - 1 :: int] = length (shape example_pad_input)
   \<and> pad_tensor_to_multiple_of (Ndarray example_pad_input) [0, - 1] 0 False = Inl AssertionError
   \<and> (\<exists>ret. pad_tensor_to_multiple_of (Ndarray example_pad_input) [4, - 1] 0 False = Inr ret
          \<and> shape ret = [8, 3] \<and> (4::int) dvd int (shape ret ! 0) \<and> shape ret ! 1 = 3)"
proof -
  have h: "to_float_container (Ndarray example_pad_input) = Inr example_pad_input"
    "length [4, - 1 :: int] = length (shape example_pad_input)"
    "length [0, - 1 :: int] = length (shape example_pad_input)"
    by (simp_all add: to_float_container_def example_pad_input_def)
  have "\<exists>d < length [0, - 1 :: int]. [0, - 1 :: int] ! d \<noteq> - 1
          \<and> ([0, - 1 :: int] ! d \<le> 0 \<or> shape example_pad_input ! d = 0)"
    by (rule exI[of _ 0]) simp
  then have bad: "pad_tensor_to_multiple_of (Ndarray example_pad_input) [0, - 1] 0 False = Inl AssertionError"
    using pad_target_sizes[OF h(1) h(3), of 0 False] by blast
  obtain ret where r: "pad_tensor_to_multiple_of (Ndarray example_pad_input) [4, - 1] 0 False = Inr ret"
    and s: "shape ret = [8, 3]"
    using pad_example by simp
  have "\<forall>d < length [4, - 1 :: int].
          if [4, - 1 :: int] ! d = - 1 then shape ret ! d = shape example_pad_input ! d
          else [4, - 1 :: int] ! d dvd int (shape ret ! d)
               \<and> shape example_pad_input ! d \<le> shape ret ! d
               \<and> (\<forall>k. int (shape example_pad_input ! d) \<le> k * [4, - 1 :: int] ! d
                      \<longrightarrow> int (shape ret ! d) \<le> k * [4, - 1 :: int] ! d)"
    using pad_target_sizes[OF h(1) h(2), of 0 False] r by blast
  then have "(4::int) dvd int (shape ret ! 0)" and "shape ret ! 1 = 3"
    by (auto simp: example_pad_input_def dest: spec[of _ 0] spec[of _ 1])
  then show ?thesis using h bad r s by blast
qed

section \<open>The storage type of the reshaped arrays\<close>

lemma to_float_container_dtype:
  "to_float_container x = Inr a \<Longrightarrow>
     dtype a \<in> {Float32, Float16} \<and> (\<not> is_float_ndarray x \<longrightarrow> dtype a = Float32)"
  by (auto simp: to_float_container_def asarray_float32_def is_float_ndarray_def
      split: array_like.splits if_splits option.splits)

lemma np_reshape_dtype: "np_reshape a dims = Inr r \<Longrightarrow> dtype r = dtype a"
  by (auto simp: np_reshape_def Let_def split: if_splits)

lemma transpose_102_dtype: "transpose_102 a = Inr r \<Longrightarrow> dtype r = dtype a"
  by (auto simp: transpose_102_def split: list.splits)

lemma interleave_dtype:
  assumes "interleave_matrix_outer_dim_from_partitions x n = Inr r"
  shows "\<exists>a. to_float_container x = Inr a \<and> dtype r = dtype a"
proof -
  obtain a where a: "to_float_container x = Inr a"
    using assms by (auto simp: interleave_matrix_outer_dim_from_partitions_def split: sum.splits)
  obtain r1 r2 where "np_reshape a [- 1, n, int (shape a ! 1)] = Inr r1"
    "transpose_102 r1 = Inr r2" "np_reshape r2 [n, - 1, int (shape a ! 1)] = Inr r"
    using assms a
    by (auto simp: interleave_matrix_outer_dim_from_partitions_def Let_def split: sum.splits if_splits)
  then show ?thesis
    using a np_reshape_dtype transpose_102_dtype by metis
qed

lemma pad_dtype:
  assumes "pad_tensor_to_multiple_of x factors val distr = Inr r"
  shows "\<exists>a. to_float_container x = Inr a \<and> dtype r = dtype a"
proof -
  obtain a where a: "to_float_container x = Inr a"
    using assms by (auto simp: pad_tensor_to_multiple_of_def split: sum.splits)
  then show ?thesis using pad_success[OF a assms] by simp
qed

text \<open>
  Claim C10. Every array that \<open>interleave_matrix_outer_dim_from_partitions\<close> or
  \<open>pad_tensor_to_multiple_of\<close> returns has 32- or 16-bit float storage, and 32-bit float
  storage when the input was not already a NumPy array with 32- or 16-bit float storage.
\<close>

theorem reshaping_returns_float_container:
  "(interleave_matrix_outer_dim_from_partitions x n = Inr r \<longrightarrow>
      dtype r \<in> {Float32, Float16} \<and> (\<not> is_float_ndarray x \<longrightarrow> dtype r = Float32))
   \<and> (pad_tensor_to_multiple_of x factors val distr = Inr r' \<longrightarrow>
      dtype r' \<in> {Float32, Float16} \<and> (\<not> is_float_ndarray x \<longrightarrow> dtype r' = Float32))"
  using interleave_dtype[of x n r] pad_dtype[of x factors val distr r'] to_float_container_dtype[of x]
  by auto

theorem reshaping_returns_float_container_witness:
  "\<not> is_float_ndarray (Ndarray example_int_rows) \<and> \<not> is_float_ndarray (Nested example_nested)
   \<and> (\<exists>r. interleave_matrix_outer_dim_from_partitions (Ndarray example_int_rows) 2 = Inr r
          \<and> dtype r = Float32)
   \<and> (\<exists>r. pad_tensor_to_multiple_of (Nested example_nested) [4, 2] 0 False = Inr r
          \<and> shape r = [4, 4] \<and> dtype r = Float32)"
proof -
  have n: "\<not> is_float_ndarray (Ndarray example_int_rows)" "\<not> is_float_ndarray (Nested example_nested)"
    by (simp_all add: is_float_ndarray_def example_int_rows_def)
  obtain r where r: "interleave_matrix_outer_dim_from_partitions (Ndarray example_int_rows) 2 = Inr r"
    by (simp add: interleave_matrix_outer_dim_from_partitions_def to_float_container_def
        asarray_float32_def example_int_rows_def np_reshape_def transpose_102_def upt_rec)
  obtain r' where r': "pad_tensor_to_multiple_of (Nested example_nested) [4, 2] 0 False = Inr r'"
    and s: "shape r' = [4, 4]"
    by (simp add: pad_tensor_to_multiple_of_def to_float_container_def asarray_float32_def
        example_nested_def roundup_to_integer_multiple_def asarray_int32_def np_pad_def
        padded_shape_def)
  show ?thesis
    using n r r' s
      reshaping_returns_float_container[where x = "Ndarray example_int_rows" and n = 2 and r = r]
      reshaping_returns_float_container[where x = "Nested example_nested" and factors = "[4, 2]"
        and val = 0 and distr = False and r' = r']
    by simp
qed

section \<open>Sanitizing: the tolerance check\<close>

lemma py_max_Max: "xs \<noteq> [] \<Longrightarrow> py_max xs = Inr (Max (set xs))"
  using Max.set_eq_fold[of "hd xs" "tl xs"] by (cases xs) (simp_all add: py_max_def)

lemma py_max_empty: "py_max [] = Inl ValueError"
  by (simp add: py_max_def)

lemma abs_diff_rounded: "abs_diff a (rounded a) = map (\<lambda>x. \<bar>x - np_round x\<bar>) (data a)"
  by (simp add: abs_diff_def rounded_def zip_map2 zip_same_conv_map)


lemma abs_diff_same: "abs_diff a a = map (\<lambda>x. 0) (data a)"
  by (simp add: abs_diff_def zip_same_conv_map)

lemma py_max_zeros: "xs \<noteq> [] \<Longrightarrow> py_max (map (\<lambda>x. 0) xs) = Inr 0"
proof -
  assume ne: "xs \<noteq> []"
  then have "set (map (\<lambda>x. 0::real) xs) = {0}" by (cases xs) auto
  then show ?thesis using py_max_Max[of "map (\<lambda>x. 0::real) xs"] ne by simp
qed

lemma py_max_rounded:
  "data a \<noteq> [] \<Longrightarrow> py_max (abs_diff a (rounded a)) = Inr (max_abs_error a)"
  by (simp add: abs_diff_rounded py_max_Max max_abs_error_def)

lemma max_abs_error_nonneg: "data a \<noteq> [] \<Longrightarrow> 0 \<le> max_abs_error a"
proof -
  assume ne: "data a \<noteq> []"
  then obtain x where x: "x \<in> set (data a)" by (cases "data a") auto
  have "0 \<le> \<bar>x - np_round x\<bar>" by simp
  also have "\<dots> \<le> max_abs_error a"
    unfolding max_abs_error_def using x by (intro Max_ge) auto
  finally show ?thesis .
qed

lemma not_allowed_nonempty: "\<not> all_allowed dt a \<Longrightarrow> data a \<noteq> []"
  by (auto simp: all_allowed_def)

lemma np_round_of_int: "np_round (of_int k) = of_int k"
  by (simp add: np_round_def)

lemma np_round_is_int: "\<exists>k. np_round x = of_int k"
proof -
  have "np_round x = of_int \<lfloor>x\<rfloor> \<or> np_round x = of_int (\<lfloor>x\<rfloor> + 1)"
    unfolding np_round_def Let_def by presburger
  then show ?thesis by blast
qed

lemma np_round_idem: "np_round (np_round x) = np_round x"
  using np_round_is_int[of x] by (auto simp: np_round_of_int)

lemma rounded_idem: "rounded (rounded a) = rounded a"
  by (simp add: rounded_def np_round_idem)

text \<open>The step on a tensor of an integer datatype, as one equation.\<close>

lemma sanitize_tensor_integer:
  assumes "is_integer (model t)" "ctx t = Some a"
  shows "sanitize_tensor model env chk t (ctx, w) =
    (if all_allowed (model t) a then
       (case py_max (abs_diff a a) of
          Inl e \<Rightarrow> ((ctx, w), Some e)
        | Inr me \<Rightarrow>
           (case get_execution_error_thresh env of
              Inl e \<Rightarrow> ((ctx, w), Some e)
            | Inr th \<Rightarrow> if me \<le> th then ((ctx, w), None) else ((ctx, w), Some RoundingTooLarge)))
     else
       (case get_execution_error_thresh env of
          Inl e \<Rightarrow> ((ctx, w @ [(t, name (model t))]), Some e)
        | Inr th \<Rightarrow>
            if max_abs_error a \<le> th then
              (if chk \<and> \<not> all_allowed (model t) (rounded a)
               then ((ctx, w @ [(t, name (model t))]), Some StillNotRepresentable)
               else ((ctx(t \<mapsto> rounded a), w @ [(t, name (model t))]), None))
            else ((ctx, w @ [(t, name (model t))]), Some RoundingTooLarge)))"
proof (cases "all_allowed (model t) a")
  case True
  have "ctx(t \<mapsto> a) = ctx" using assms(2) by (rule map_upd_triv)
  then show ?thesis
    using assms True by (simp add: sanitize_tensor_def Let_def split: sum.splits)
next
  case False
  have ne: "data a \<noteq> []" using False by (rule not_allowed_nonempty)
  show ?thesis
    using assms False py_max_rounded[OF ne]
    by (simp add: sanitize_tensor_def Let_def rounded_def[symmetric] split: sum.splits)
qed

lemma sanitize_tensor_not_integer:
  "\<not> is_integer (model t) \<Longrightarrow> sanitize_tensor model env chk t st = (st, None)"
  by (simp add: sanitize_tensor_def Let_def)

lemma sanitize_tensor_missing:
  "is_integer (model t) \<Longrightarrow> ctx t = None \<Longrightarrow>
     sanitize_tensor model env chk t (ctx, w) = ((ctx, w), Some KeyError)"
  by (simp add: sanitize_tensor_def Let_def)

lemma thresh_default: "get_execution_error_thresh env_unset = Inr (1 / 100)"
  by (simp add: get_execution_error_thresh_def env_unset_def)

lemma thresh_override: "get_execution_error_thresh (env_thresh r) = Inr r"
  by (simp add: get_execution_error_thresh_def env_thresh_def)

lemma sanitize_single:
  "sanitize_quant_values model env [t] ctx chk = sanitize_tensor model env chk t (ctx, [])"
  by (simp add: sanitize_quant_values_def split: prod.splits option.splits)

lemma name_INT2: "name (dt_INT 2) = ''INT2''"
  by (simp add: dt_INT_def str_nat.simps digit_char_def)

lemma INT2_integer: "is_integer (dt_INT 2)"
  by (simp add: dt_INT_def)

lemma INT2_allowed: "allowed (dt_INT 2) x = (- 2 \<le> x \<and> x \<le> 1 \<and> is_whole x)"
  by (simp add: dt_INT_def)

lemma example_model_x: "example_model ''x'' = dt_INT 2"
  by (simp add: example_model_def)

lemmas example_simps =
  example_model_x name_INT2 INT2_integer INT2_allowed is_whole_def all_allowed_def vector_def
  thresh_default thresh_override sanitize_single sanitize_tensor_integer
  max_abs_error_def rounded_def np_round_def abs_diff_same py_max_def

lemma max_abs_error_half: "max_abs_error (vector [1, 3 / 2]) = 1 / 2"
  by (simp add: example_simps)

text \<open>
  Claim C3. For a tensor of an integer datatype whose stored values are not all allowed,
  and a tolerance read from the environment, the step of \<open>sanitize_quant_values\<close> on
  that tensor (and so the call on that tensor alone) raises the rounding-too-large
  exception exactly when the largest distance between a value and its rounded value
  exceeds the tolerance; it raises the not-representable exception exactly when that
  distance is within the tolerance, the strict check is requested and the rounded values
  are not all allowed. The tolerance is \<open>1/100\<close> when \<open>ERROR_THRESH\<close> is not set and the
  value of \<open>ERROR_THRESH\<close> when it is.
\<close>

theorem rounding_too_large_iff:
  assumes "is_integer (model t)" and "ctx t = Some a" and "\<not> all_allowed (model t) a"
    and "get_execution_error_thresh env = Inr thresh"
  shows "(snd (sanitize_tensor model env chk t (ctx, w)) = Some RoundingTooLarge
            \<longleftrightarrow> thresh < max_abs_error a)
         \<and> (snd (sanitize_quant_values model env [t] ctx chk) = Some RoundingTooLarge
            \<longleftrightarrow> thresh < max_abs_error a)
         \<and> (snd (sanitize_tensor model env chk t (ctx, w)) = Some StillNotRepresentable
            \<longleftrightarrow> max_abs_error a \<le> thresh \<and> chk \<and> \<not> all_allowed (model t) (rounded a))
         \<and> get_execution_error_thresh env_unset = Inr (1 / 100)
         \<and> get_execution_error_thresh (env_thresh r) = Inr r"
  using assms
  by (auto simp: sanitize_tensor_integer sanitize_single thresh_default thresh_override)

theorem rounding_too_large_iff_witness:
  "is_integer (example_model ''x'')
   \<and> [''x'' \<mapsto> vector [1, 3 / 2]] ''x'' = Some (vector [1, 3 / 2])
   \<and> \<not> all_allowed (example_model ''x'') (vector [1, 3 / 2])
   \<and> get_execution_error_thresh env_unset = Inr (1 / 100)
   \<and> 1 / 100 < max_abs_error (vector [1, 3 / 2])
   \<and> snd (sanitize_quant_values example_model env_unset [''x''] [''x'' \<mapsto> vector [1, 3 / 2]] True)
       = Some RoundingTooLarge"
proof -
  have h: "is_integer (example_model ''x'')"
    "[''x'' \<mapsto> vector [1, 3 / 2]] ''x'' = Some (vector [1, 3 / 2])"
    "\<not> all_allowed (example_model ''x'') (vector [1, 3 / 2])"
    "get_execution_error_thresh env_unset = Inr (1 / 100)"
    by (simp_all add: example_model_x INT2_integer INT2_allowed is_whole_def all_allowed_def
        vector_def thresh_default)
  have m: "1 / 100 < max_abs_error (vector [1, 3 / 2])"
    by (simp add: max_abs_error_half)
  note r = rounding_too_large_iff[where model = example_model and t = "''x''" and env = env_unset
      and ctx = "[''x'' \<mapsto> vector [1, 3 / 2]]" and a = "vector [1, 3 / 2]"
      and thresh = "1 / 100" and chk = True and w = "[]"]
  show ?thesis
    using h m r by blast
qed

section \<open>Sanitizing: what a run leaves alone\<close>

lemma sanitize_tensor_frame:
  "s \<noteq> t \<Longrightarrow> fst (fst (sanitize_tensor model env chk t (ctx, w))) s = ctx s"
  by (cases "is_integer (model t)"; cases "ctx t")
     (auto simp: sanitize_tensor_not_integer sanitize_tensor_missing sanitize_tensor_integer
           split: sum.splits)

lemma sanitize_tensor_keeps_allowed:
  "\<not> is_integer (model t) \<or> (\<exists>a. ctx t = Some a \<and> all_allowed (model t) a) \<Longrightarrow>
     fst (fst (sanitize_tensor model env chk t (ctx, w))) = ctx"
  by (cases "is_integer (model t)")
     (auto simp: sanitize_tensor_not_integer sanitize_tensor_integer split: sum.splits)

lemma untouched_cong: "ctx' t = ctx t \<Longrightarrow> untouched model ctx' t = untouched model ctx t"
  by (simp add: untouched_def)

lemma sanitize_loop_entry:
  assumes "t \<notin> set names \<or> untouched model ctx t"
  shows "fst (fst (sanitize_loop model env chk names (ctx, w))) t = ctx t"
  using assms
proof (induction names arbitrary: ctx w)
  case Nil
  then show ?case by simp
next
  case (Cons s names)
  obtain ctx1 w1 r where st: "sanitize_tensor model env chk s (ctx, w) = ((ctx1, w1), r)"
    by (metis surj_pair)
  have keep: "ctx1 t = ctx t"
  proof (cases "s = t")
    case True
    then have "untouched model ctx t" using Cons.prems by simp
    then show ?thesis
      using sanitize_tensor_keeps_allowed[of model t ctx env chk w] st True
      by (simp add: untouched_def)
  next
    case False
    then show ?thesis using sanitize_tensor_frame[of t s model env chk ctx w] st by simp
  qed
  show ?case
  proof (cases r)
    case None
    have "t \<notin> set names \<or> untouched model ctx1 t"
      using Cons.prems untouched_cong[of ctx1 t ctx model] keep by auto
    from Cons.IH[OF this, of w1] show ?thesis using st None keep by simp
  next
    case (Some e)
    then show ?thesis using st keep by simp
  qed
qed

text \<open>
  Claim C5, as stated, fails: with \<open>ERROR_THRESH\<close> set to \<open>-1\<close>, a tensor of an integer
  datatype whose values are all allowed makes the run raise the rounding-too-large
  exception, since its rounding error \<open>0\<close> is compared with the tolerance all the same.
\<close>

theorem sanitize_frame_counterexample:
  "is_integer (example_model ''x'')
   \<and> [''x'' \<mapsto> vector [1, - 2]] ''x'' = Some (vector [1, - 2])
   \<and> all_allowed (example_model ''x'') (vector [1, - 2])
   \<and> sanitize_quant_values example_model (env_thresh (- 1)) [''x''] [''x'' \<mapsto> vector [1, - 2]] False
       = (([''x'' \<mapsto> vector [1, - 2]], []), Some RoundingTooLarge)"
  by (simp add: example_simps)

text \<open>
  Claim C5, amended. A run of \<open>sanitize_quant_values\<close>, whether it returns or raises,
  leaves the entry of a tensor name as it was when the name is not among the given
  names, or its datatype is not an integer type, or its stored values are all allowed.
  The step on a name whose datatype is not an integer type does not fail; the step on a
  name of an integer datatype whose values are all allowed does not fail when the
  stored array is not empty and the tolerance is a number that is not negative.
\<close>

theorem sanitize_frame:
  "((t \<notin> set names \<or> \<not> is_integer (model t) \<or> (\<exists>a. ctx t = Some a \<and> all_allowed (model t) a))
      \<longrightarrow> fst (fst (sanitize_quant_values model env names ctx chk)) t = ctx t)
   \<and> (\<not> is_integer (model t) \<longrightarrow> sanitize_tensor model env chk t (ctx, w) = ((ctx, w), None))
   \<and> (is_integer (model t) \<and> ctx t = Some a \<and> all_allowed (model t) a \<and> data a \<noteq> []
        \<and> get_execution_error_thresh env = Inr thresh \<and> 0 \<le> thresh
      \<longrightarrow> sanitize_tensor model env chk t (ctx, w) = ((ctx, w), None))"
proof (intro conjI impI)
  assume "t \<notin> set names \<or> \<not> is_integer (model t) \<or> (\<exists>a. ctx t = Some a \<and> all_allowed (model t) a)"
  then have "t \<notin> set names \<or> untouched model ctx t" by (simp add: untouched_def)
  then show "fst (fst (sanitize_quant_values model env names ctx chk)) t = ctx t"
    unfolding sanitize_quant_values_def by (rule sanitize_loop_entry)
next
  assume "\<not> is_integer (model t)"
  then show "sanitize_tensor model env chk t (ctx, w) = ((ctx, w), None)"
    by (rule sanitize_tensor_not_integer)
next
  assume h: "is_integer (model t) \<and> ctx t = Some a \<and> all_allowed (model t) a \<and> data a \<noteq> []
        \<and> get_execution_error_thresh env = Inr thresh \<and> 0 \<le> thresh"
  then show "sanitize_tensor model env chk t (ctx, w) = ((ctx, w), None)"
    by (simp add: sanitize_tensor_integer abs_diff_same py_max_zeros)
qed

theorem sanitize_frame_witness:
  "is_integer (example_model ''x'') \<and> \<not> is_integer (example_model ''w'')
   \<and> [''x'' \<mapsto> vector [1, - 2]] ''x'' = Some (vector [1, - 2])
   \<and> all_allowed (example_model ''x'') (vector [1, - 2]) \<and> data (vector [1, - 2]) \<noteq> []
   \<and> get_execution_error_thresh env_unset = Inr (1 / 100) \<and> (0::real) \<le> 1 / 100
   \<and> sanitize_tensor example_model env_unset True ''x'' ([''x'' \<mapsto> vector [1, - 2]], [])
       = (([''x'' \<mapsto> vector [1, - 2]], []), None)
   \<and> sanitize_tensor example_model env_unset True ''w'' ([''x'' \<mapsto> vector [1, - 2]], [])
       = (([''x'' \<mapsto> vector [1, - 2]], []), None)
   \<and> fst (fst (sanitize_quant_values example_model env_unset [''x'', ''w'']
                  [''x'' \<mapsto> vector [1, - 2], ''y'' \<mapsto> vector [7 / 2]] True)) ''y''
       = Some (vector [7 / 2])"
proof -
  have h: "is_integer (example_model ''x'') \<and> [''x'' \<mapsto> vector [1, - 2]] ''x'' = Some (vector [1, - 2])
      \<and> all_allowed (example_model ''x'') (vector [1, - 2]) \<and> data (vector [1, - 2]) \<noteq> []
      \<and> get_execution_error_thresh env_unset = Inr (1 / 100) \<and> (0::real) \<le> 1 / 100"
    by (simp add: example_model_x INT2_integer INT2_allowed is_whole_def all_allowed_def
        vector_def thresh_default)
  have n: "\<not> is_integer (example_model ''w'')"
    by (simp add: example_model_def dt_FLOAT32_def)
  have y: "''y'' \<notin> set [''x'', ''w'']" by simp
  note f1 = sanitize_frame[where model = example_model and t = "''x''" and env = env_unset
      and ctx = "[''x'' \<mapsto> vector [1, - 2]]" and a = "vector [1, - 2]" and thresh = "1 / 100"
      and chk = True and w = "[]"]
  note f2 = sanitize_frame[where model = example_model and t = "''w''" and env = env_unset
      and ctx = "[''x'' \<mapsto> vector [1, - 2]]" and chk = True and w = "[]"]
  note f3 = sanitize_frame[where model = example_model and t = "''y''" and env = env_unset
      and names = "[''x'', ''w'']"
      and ctx = "[''x'' \<mapsto> vector [1, - 2], ''y'' \<mapsto> vector [7 / 2]]" and chk = True]
  have a: "sanitize_tensor example_model env_unset True ''x'' ([''x'' \<mapsto> vector [1, - 2]], [])
       = (([''x'' \<mapsto> vector [1, - 2]], []), None)"
    using f1 h by blast
  have b: "sanitize_tensor example_model env_unset True ''w'' ([''x'' \<mapsto> vector [1, - 2]], [])
       = (([''x'' \<mapsto> vector [1, - 2]], []), None)"
    using f2 n by blast
  have c: "fst (fst (sanitize_quant_values example_model env_unset [''x'', ''w'']
                  [''x'' \<mapsto> vector [1, - 2], ''y'' \<mapsto> vector [7 / 2]] True)) ''y''
       = Some (vector [7 / 2])"
    using f3 y by simp
  show ?thesis using h n a b c by blast
qed

section \<open>Sanitizing twice\<close>

lemma settled_cong: "ctx' t = ctx t \<Longrightarrow> settled model env chk ctx t \<Longrightarrow> settled model env chk ctx' t"
  by (simp add: settled_def)

lemma max_abs_error_fixed:
  assumes "rounded a = a" "data a \<noteq> []"
  shows "max_abs_error a = 0"
proof -
  have "map np_round (data a) = data a"
    using assms(1) by (metis ndarray.select_convs(3) ndarray.surjective ndarray.update_convs(3) rounded_def)
  then have "\<forall>x \<in> set (data a). np_round x = x" by (metis map_eq_conv map_ident)
  then have "(\<lambda>x. \<bar>x - np_round x\<bar>) ` set (data a) = {0}"
    using assms(2) by (cases "data a") auto
  then show ?thesis by (simp add: max_abs_error_def)
qed

lemma settled_step:
  assumes "settled model env chk ctx t"
  shows "\<exists>w'. sanitize_tensor model env chk t (ctx, w) = ((ctx, w'), None)"
proof (cases "is_integer (model t)")
  case False
  then show ?thesis by (simp add: sanitize_tensor_not_integer)
next
  case True
  then obtain a th where a: "ctx t = Some a" "data a \<noteq> []"
    "get_execution_error_thresh env = Inr th" "0 \<le> th"
    "all_allowed (model t) a \<or> (\<not> chk \<and> rounded a = a)"
    using assms by (auto simp: settled_def)
  show ?thesis
  proof (cases "all_allowed (model t) a")
    case al: True
    then show ?thesis
      using True a by (simp add: sanitize_tensor_integer abs_diff_same py_max_zeros)
  next
    case nal: False
    then have fx: "\<not> chk" "rounded a = a" using a(5) by auto
    have "ctx(t \<mapsto> a) = ctx" using a(1) by (rule map_upd_triv)
    then show ?thesis
      using True a nal fx max_abs_error_fixed[OF fx(2) a(2)]
      by (simp add: sanitize_tensor_integer)
  qed
qed

lemma step_settles:
  assumes "sanitize_tensor model env chk t (ctx, w) = ((ctx', w'), None)"
  shows "settled model env chk ctx' t"
proof (cases "is_integer (model t)")
  case False
  then show ?thesis by (simp add: settled_def)
next
  case True
  then obtain a where a: "ctx t = Some a"
    using assms by (cases "ctx t") (auto simp: sanitize_tensor_missing)
  show ?thesis
  proof (cases "all_allowed (model t) a")
    case al: True
    then have ne: "data a \<noteq> []"
      using assms True a by (auto simp: sanitize_tensor_integer abs_diff_same py_max_empty)
    obtain th where th: "get_execution_error_thresh env = Inr th" "0 \<le> th" and c: "ctx' = ctx"
      using assms True a al ne
      by (auto simp: sanitize_tensor_integer abs_diff_same py_max_zeros split: sum.splits if_splits)
    show ?thesis using a al ne th c by (auto simp: settled_def)
  next
    case nal: False
    have ne: "data a \<noteq> []" using nal by (rule not_allowed_nonempty)
    obtain th where th: "get_execution_error_thresh env = Inr th" "max_abs_error a \<le> th"
      and c: "ctx' = ctx(t \<mapsto> rounded a)" and k: "chk \<longrightarrow> all_allowed (model t) (rounded a)"
      using assms True a nal
      by (auto simp: sanitize_tensor_integer split: sum.splits if_splits)
    have "0 \<le> th" using max_abs_error_nonneg[OF ne] th(2) by simp
    moreover have "data (rounded a) \<noteq> []" using ne by (simp add: rounded_def)
    ultimately show ?thesis
      using th(1) c k rounded_idem[of a] unfolding settled_def by auto
  qed
qed

lemma loop_settles:
  assumes "sanitize_loop model env chk names (ctx, w) = ((ctx', w'), None)"
    and "\<forall>t \<in> S. settled model env chk ctx t"
  shows "\<forall>t \<in> S \<union> set names. settled model env chk ctx' t"
  using assms
proof (induction names arbitrary: ctx w S)
  case Nil
  then show ?case by simp
next
  case (Cons s names)
  obtain ctx1 w1 where st: "sanitize_tensor model env chk s (ctx, w) = ((ctx1, w1), None)"
    and rest: "sanitize_loop model env chk names (ctx1, w1) = ((ctx', w'), None)"
    using Cons.prems(1) by (auto split: prod.splits option.splits)
  have "\<forall>t \<in> insert s S. settled model env chk ctx1 t"
  proof
    fix t assume t: "t \<in> insert s S"
    show "settled model env chk ctx1 t"
    proof (cases "t = s")
      case True
      then show ?thesis using step_settles[OF st] by simp
    next
      case False
      then have "ctx1 t = ctx t" using sanitize_tensor_frame[of t s model env chk ctx w] st by simp
      then show ?thesis using settled_cong t False Cons.prems(2) by blast
    qed
  qed
  from Cons.IH[OF rest this] show ?case by simp
qed

lemma settled_loop:
  assumes "\<forall>t \<in> set names. settled model env chk ctx t"
  shows "\<exists>w'. sanitize_loop model env chk names (ctx, w) = ((ctx, w'), None)"
  using assms
proof (induction names arbitrary: w)
  case Nil
  then show ?case by simp
next
  case (Cons s names)
  obtain w1 where "sanitize_tensor model env chk s (ctx, w) = ((ctx, w1), None)"
    using settled_step[of model env chk ctx s w] Cons.prems by auto
  then show ?case using Cons.IH[of w1] Cons.prems by simp
qed

lemma first_pass_strict:
  "sanitize_quant_values example_model env_unset [''x''] [''x'' \<mapsto> vector [251 / 250, - 2]] True
     = (([''x'' \<mapsto> vector [1, - 2]], [(''x'', ''INT2'')]), None)"
  by (simp add: example_simps)

text \<open>
  Claim C4, as stated, fails in its reason: without the strict check, a first pass
  rounds \<open>5.004\<close> to \<open>5\<close> for a 2-bit signed integer and stores it; the second pass
  returns the same dictionary, but it finds the value \<open>5\<close> not allowed and warns again.
\<close>

theorem sanitize_idempotent_counterexample:
  "sanitize_quant_values example_model env_unset [''x''] [''x'' \<mapsto> vector [1251 / 250]] False
     = (([''x'' \<mapsto> vector [5]], [(''x'', ''INT2'')]), None)
   \<and> sanitize_quant_values example_model env_unset [''x''] [''x'' \<mapsto> vector [5]] False
     = (([''x'' \<mapsto> vector [5]], [(''x'', ''INT2'')]), None)
   \<and> is_integer (example_model ''x'')
   \<and> \<not> all_allowed (example_model ''x'') (vector [5])"
  by (simp add: example_simps)

text \<open>
  Claim C4, amended. When a call of \<open>sanitize_quant_values\<close> returns, a second call with
  the same arguments on the resulting dictionary returns too, with the same dictionary.
  With the strict check, every given tensor of an integer datatype then holds values
  that are all allowed.
\<close>

theorem sanitize_idempotent:
  assumes "sanitize_quant_values model env names ctx chk = ((ctx', w), None)"
  shows "(\<exists>w'. sanitize_quant_values model env names ctx' chk = ((ctx', w'), None))
         \<and> (chk \<longrightarrow> (\<forall>t \<in> set names. is_integer (model t) \<longrightarrow>
                        (\<exists>a. ctx' t = Some a \<and> all_allowed (model t) a)))"
proof -
  have all: "\<forall>t \<in> set names. settled model env chk ctx' t"
    using loop_settles[of model env chk names ctx "[]" ctx' w "{}"] assms
    by (simp add: sanitize_quant_values_def)
  then have "\<exists>w'. sanitize_quant_values model env names ctx' chk = ((ctx', w'), None)"
    unfolding sanitize_quant_values_def by (rule settled_loop)
  moreover have "chk \<longrightarrow> (\<forall>t \<in> set names. is_integer (model t) \<longrightarrow>
                        (\<exists>a. ctx' t = Some a \<and> all_allowed (model t) a))"
    using all by (auto simp: settled_def)
  ultimately show ?thesis by simp
qed

theorem sanitize_idempotent_witness:
  "sanitize_quant_values example_model env_unset [''x''] [''x'' \<mapsto> vector [251 / 250, - 2]] True
     = (([''x'' \<mapsto> vector [1, - 2]], [(''x'', ''INT2'')]), None)
   \<and> (\<exists>w'. sanitize_quant_values example_model env_unset [''x''] [''x'' \<mapsto> vector [1, - 2]] True
              = (([''x'' \<mapsto> vector [1, - 2]], w'), None))
   \<and> (\<exists>a. [''x'' \<mapsto> vector [1, - 2]] ''x'' = Some a \<and> all_allowed (example_model ''x'') a)"
proof -
  note i = sanitize_idempotent[OF first_pass_strict]
  have "is_integer (example_model ''x'')" by (simp add: example_model_x INT2_integer)
  then show ?thesis using i first_pass_strict by simp
qed

section \<open>The values of a generated tensor\<close>










lemma nbits_2147483646: "nbits 2147483646 = 31"
  by (simp add: nbits.simps)

lemma float32_2147483646: "float_of_int 24 2147483646 = 2147483648"
  by (simp add: float_of_int_def nbits_2147483646 np_round_def)













end
